theory Spec2Isabelle
  imports Main "HOL-Library.AList"
begin

section \<open>Data model\<close>

text \<open>
  The notebook \<^verbatim>\<open>example_usage.ipynb\<close> defines five functions over helpers imported
  from modules (\<^verbatim>\<open>composer_api\<close>, \<^verbatim>\<open>data_processing\<close>, \<^verbatim>\<open>file_utils\<close>,
  \<^verbatim>\<open>quant_analysis\<close>) and libraries (\<^verbatim>\<open>os\<close>, \<^verbatim>\<open>pandas\<close>, \<^verbatim>\<open>time\<close>). The
  functions of the notebook are embedded below; each helper is a parameter of the function
  that calls it, except the few whose behaviour a property is about, which are modelled
  from the specification and marked so.

  Everything the Python does besides returning a value is explicit: the remote service,
  the files on disk and the sequence of observable effects (printed lines, pauses, remote
  calls, file writes) are fields of a \<open>world\<close> that every function takes and returns.
\<close>

type_synonym sid = string
type_synonym path = string

text \<open>Python exceptions that the modelled code can meet.\<close>

datatype error = FileNotFoundError | JSONDecodeError | KeyError | ValueError | TypeError

text \<open>
  A Python dictionary keeps its keys in insertion order: it is an association list with
  distinct keys. \<open>d[k] = v\<close> replaces the value of a key that is present, in place,
  and appends a new key at the end, which is what \<open>AList.update\<close> does; the empty
  dictionary is \<open>[]\<close>, and \<open>map_of\<close> looks a key up.
\<close>

type_synonym ('k, 'v) dict = "('k \<times> 'v) list"

definition keys :: "('k, 'v) dict \<Rightarrow> 'k list" where
  "keys d = map fst d"

text \<open>
  One row of the symphonies frame. The notebook reads the columns
  \<^verbatim>\<open>symphony_sid\<close>, \<^verbatim>\<open>title\<close> and \<^verbatim>\<open>name\<close>.
\<close>

record row =
  symphony_sid :: sid
  title :: string
  name :: string

text \<open>
  A pandas frame as \<^verbatim>\<open>iterrows()\<close> presents it: the rows in order, each paired with
  its index label. Labels are integers; a frame built with the default index carries the
  labels \<open>0, 1, 2, \<dots>\<close>, a filtered or re-indexed frame carries others.
\<close>

type_synonym dataframe = "(int \<times> row) list"

text \<open>What a file holds: a JSON document, the symphonies frame, or another table.\<close>

datatype ('j, 'd) content =
    Json_Doc 'j
  | Symphony_Table dataframe
  | Data_Table 'd

text \<open>Observable effects, in the order the program performs them.\<close>

datatype ('j, 'd) event =
    Print_Sleeping int nat
  | Sleep nat
  | Fetch_Symphony sid
  | Fetch_Backtest sid string string
  | File_Write path "('j, 'd) content"
  | Print_Processing path
  | Print_Index nat
  | Print_Fail path

type_synonym ('j, 'd) filesys = "path \<rightharpoonup> ('j, 'd) content"

record ('n, 'j, 'd) world =
  net :: 'n
  files :: "('j, 'd) filesys"
  trace :: "('j, 'd) event list"

definition emit :: "('j, 'd) event \<Rightarrow> ('n, 'j, 'd) world \<Rightarrow> ('n, 'j, 'd) world" where
  "emit e w = w\<lparr>trace := trace w @ [e]\<rparr>"

text \<open>\<^verbatim>\<open>time.sleep(1)\<close>: the pause is an event; nothing else changes.\<close>

definition sleep :: "nat \<Rightarrow> ('n, 'j, 'd) world \<Rightarrow> ('n, 'j, 'd) world" where
  "sleep secs w = emit (Sleep secs) w"

text \<open>
  The response of \<^verbatim>\<open>fetch_symphony\<close> and \<^verbatim>\<open>fetch_backtest_raw\<close>: the triple
  \<^verbatim>\<open>(ok_status_code, status_code, json_data)\<close> that the callers unpack.
\<close>

type_synonym 'j response = "bool \<times> int \<times> 'j"

text \<open>A failure record \<^verbatim>\<open>(idx, sid, status_code)\<close>.\<close>

type_synonym 'i failure = "'i \<times> sid \<times> int"

section \<open>Symphony fetcher\<close>

text \<open>
  \<^verbatim>\<open>
  def batch_fetch_symphonies(symphony_sid_list):
      response_list = []
      failure_list = []
      for idx, sid in enumerate(symphony_sid_list):
          if idx % 20 == 0:
              print(f'Sleeping at index {idx} with failure {len(failure_list)}')
              time.sleep(1)
          ok_status_code, status_code, json_data = fetch_symphony(sid)
          if ok_status_code:
              response_list.append(json_data)
          else:
              failure_list.append((idx, sid, status_code))
      return response_list, failure_list
  \<close>
  \<^verbatim>\<open>fetch_symphony\<close> lives in \<^verbatim>\<open>composer_api\<close>; it is the parameter \<open>fetch\<close>, which
  reads and updates the state of the remote service and reports a failure through the
  flag of its response. The loop is a recursion on the remaining identifiers that carries
  the counter of \<^verbatim>\<open>enumerate\<close> and the two lists.
\<close>

fun symphonies_loop ::
  "('n \<Rightarrow> sid \<Rightarrow> 'j response \<times> 'n) \<Rightarrow> nat \<Rightarrow> sid list \<Rightarrow>
   'j list \<times> nat failure list \<Rightarrow> ('n, 'j, 'd) world \<Rightarrow>
   ('j list \<times> nat failure list) \<times> ('n, 'j, 'd) world" where
  "symphonies_loop fetch idx [] (response_list, failure_list) w =
     ((response_list, failure_list), w)"
| "symphonies_loop fetch idx (sid # rest) (response_list, failure_list) w =
     (let w1 = (if idx mod 20 = 0
                then sleep 1 (emit (Print_Sleeping (int idx) (length failure_list)) w)
                else w);
          ((ok_status_code, status_code, json_data), n') = fetch (net w1) sid;
          w2 = emit (Fetch_Symphony sid) (w1\<lparr>net := n'\<rparr>)
      in if ok_status_code
         then symphonies_loop fetch (Suc idx) rest
                (response_list @ [json_data], failure_list) w2
         else symphonies_loop fetch (Suc idx) rest
                (response_list, failure_list @ [(idx, sid, status_code)]) w2)"

definition batch_fetch_symphonies ::
  "('n \<Rightarrow> sid \<Rightarrow> 'j response \<times> 'n) \<Rightarrow> sid list \<Rightarrow> ('n, 'j, 'd) world \<Rightarrow>
   ('j list \<times> nat failure list) \<times> ('n, 'j, 'd) world" where
  "batch_fetch_symphonies fetch symphony_sid_list w =
     symphonies_loop fetch 0 symphony_sid_list ([], []) w"


text \<open>
  The responses of the calls in order, each call made in the service state the previous
  one left; and the two lists they determine. \<open>enumerate\<close> pairs each identifier with its
  position, as Python's does.
\<close>

fun fetch_outcomes ::
  "('n \<Rightarrow> sid \<Rightarrow> 'j response \<times> 'n) \<Rightarrow> 'n \<Rightarrow> sid list \<Rightarrow> 'j response list" where
  "fetch_outcomes fetch n [] = []"
| "fetch_outcomes fetch n (sid # rest) =
     (let (r, n') = fetch n sid in r # fetch_outcomes fetch n' rest)"

definition successes :: "'j response list \<Rightarrow> 'j list" where
  "successes outs = [json_data. (ok, status_code, json_data) \<leftarrow> outs, ok]"

definition failures :: "('i \<times> sid) list \<Rightarrow> 'j response list \<Rightarrow> 'i failure list" where
  "failures keyed outs =
     [(i, sid, status_code).
        ((i, sid), ok, status_code, json_data) \<leftarrow> zip keyed outs, \<not> ok]"

text \<open>Classes of effects, and the effects performed between two worlds.\<close>

definition is_call :: "('j, 'd) event \<Rightarrow> bool" where
  "is_call e =
     (case e of Fetch_Symphony _ \<Rightarrow> True | Fetch_Backtest _ _ _ \<Rightarrow> True | _ \<Rightarrow> False)"

definition is_write :: "('j, 'd) event \<Rightarrow> bool" where
  "is_write e = (case e of File_Write _ _ \<Rightarrow> True | _ \<Rightarrow> False)"

definition is_print :: "('j, 'd) event \<Rightarrow> bool" where
  "is_print e =
     (case e of Print_Sleeping _ _ \<Rightarrow> True | Print_Processing _ \<Rightarrow> True
      | Print_Index _ \<Rightarrow> True | Print_Fail _ \<Rightarrow> True | _ \<Rightarrow> False)"

definition effects_since ::
  "('n, 'j, 'd) world \<Rightarrow> ('n, 'j, 'd) world \<Rightarrow> ('j, 'd) event list" where
  "effects_since w w' = drop (length (trace w)) (trace w')"

section \<open>Backtest fetcher\<close>

text \<open>
  Modelled from the spec: \<^verbatim>\<open>write_json\<close> of \<^verbatim>\<open>file_utils\<close> and pandas'
  \<^verbatim>\<open>to_csv\<close> are not in the notebook. The specification has JSON documents and CSV
  files persisted at the given path; a write replaces what the path held.
\<close>

definition write_file ::
  "path \<Rightarrow> ('j, 'd) content \<Rightarrow> ('n, 'j, 'd) world \<Rightarrow> ('n, 'j, 'd) world" where
  "write_file p c w = emit (File_Write p c) (w\<lparr>files := (files w)(p \<mapsto> c)\<rparr>)"

definition write_json :: "'j \<Rightarrow> path \<Rightarrow> ('n, 'j, 'd) world \<Rightarrow> ('n, 'j, 'd) world" where
  "write_json jsond filename w = write_file filename (Json_Doc jsond) w"

definition to_csv ::
  "('j, 'd) content \<Rightarrow> path \<Rightarrow> ('n, 'j, 'd) world \<Rightarrow> ('n, 'j, 'd) world" where
  "to_csv table p w = write_file p table w"

text \<open>The f-string \<^verbatim>\<open>f"bin/BT-{end_date}/{sid}.json"\<close>.\<close>

definition backtest_filename :: "string \<Rightarrow> sid \<Rightarrow> path" where
  "backtest_filename end_date sid = ''bin/BT-'' @ end_date @ ''/'' @ sid @ ''.json''"

text \<open>
  \<^verbatim>\<open>
  def batch_fetch_backtests(df, start_date, end_date):
      rlist, flist = [], []
      for idx, row in df.iterrows():
          if idx % 20 == 0:
              print(f'Sleeping at index {idx} with failure {len(flist)}')
              time.sleep(1)
          sid = row['symphony_sid']
          filename = f"bin/BT-{end_date}/{sid}.json"
          ok_status_code, status_code, jsond = fetch_backtest_raw(sid, start_date, end_date)
          write_json(jsond, filename)
          if ok_status_code:
              rlist.append(jsond)
          else:
              flist.append((idx, sid, status_code))
      return rlist, flist
  \<close>
  Here \<^verbatim>\<open>idx\<close> is the index label that \<^verbatim>\<open>iterrows\<close> yields with the row, not a
  counter. Python's \<^verbatim>\<open>%\<close> on integers takes the sign of the divisor, as \<open>mod\<close> on
  \<open>int\<close> does.
\<close>

fun backtests_loop ::
  "('n \<Rightarrow> sid \<Rightarrow> string \<Rightarrow> string \<Rightarrow> 'j response \<times> 'n) \<Rightarrow> dataframe \<Rightarrow>
   string \<Rightarrow> string \<Rightarrow> 'j list \<times> int failure list \<Rightarrow> ('n, 'j, 'd) world \<Rightarrow>
   ('j list \<times> int failure list) \<times> ('n, 'j, 'd) world" where
  "backtests_loop fetch [] start_date end_date (rlist, flist) w = ((rlist, flist), w)"
| "backtests_loop fetch ((idx, row) # rest) start_date end_date (rlist, flist) w =
     (let w1 = (if idx mod 20 = 0
                then sleep 1 (emit (Print_Sleeping idx (length flist)) w)
                else w);
          sid = symphony_sid row;
          filename = backtest_filename end_date sid;
          ((ok_status_code, status_code, jsond), n') =
             fetch (net w1) sid start_date end_date;
          w2 = emit (Fetch_Backtest sid start_date end_date) (w1\<lparr>net := n'\<rparr>);
          w3 = write_json jsond filename w2
      in if ok_status_code
         then backtests_loop fetch rest start_date end_date (rlist @ [jsond], flist) w3
         else backtests_loop fetch rest start_date end_date
                (rlist, flist @ [(idx, sid, status_code)]) w3)"

definition batch_fetch_backtests ::
  "('n \<Rightarrow> sid \<Rightarrow> string \<Rightarrow> string \<Rightarrow> 'j response \<times> 'n) \<Rightarrow> dataframe \<Rightarrow>
   string \<Rightarrow> string \<Rightarrow> ('n, 'j, 'd) world \<Rightarrow>
   ('j list \<times> int failure list) \<times> ('n, 'j, 'd) world" where
  "batch_fetch_backtests fetch df start_date end_date w =
     backtests_loop fetch df start_date end_date ([], []) w"

text \<open>The identifiers of the rows, in order: \<^verbatim>\<open>df['symphony_sid'].values\<close>.\<close>

definition sids_of :: "dataframe \<Rightarrow> sid list" where
  "sids_of df = map (\<lambda>(idx, row). symphony_sid row) df"

text \<open>
  A frame with pandas' default index: the label of each row is its position.
\<close>

definition default_index :: "dataframe \<Rightarrow> bool" where
  "default_index df = (map fst df = map int [0..<length df])"


section \<open>Backtest result processor\<close>

text \<open>
  Python's \<^verbatim>\<open>d[k] = v\<close> raises \<^verbatim>\<open>TypeError\<close> when the key is unhashable (a list or
  a dict); otherwise it binds the key, replacing an earlier binding. Which keys are
  hashable is the parameter \<open>hashable\<close>.
\<close>

definition setitem ::
  "('k \<Rightarrow> bool) \<Rightarrow> ('k, 'v) dict \<Rightarrow> 'k \<Rightarrow> 'v \<Rightarrow> error + ('k, 'v) dict" where
  "setitem hashable d k v =
     (if hashable k then Inr (AList.update k v d) else Inl TypeError)"

text \<open>
  \<^verbatim>\<open>
  def process_backtest_results(jsonfiles):
      dict_allocation, dict_return, dict_stats, dict_name = {}, {}, {}, {}
      for index, jsonfile in enumerate(jsonfiles):
          if index % 20 == 0:
              print(f'Index: {index}')
          try:
              jsond = read_json(jsonfile)
              df_allocations, df_return, stats, symphony_name, id = get_backtest_and_symphony_name(jsond)
              dict_name[id] = symphony_name
              dict_stats[id] = stats
              dict_return[id] = df_return
              dict_allocation[id] = df_allocations
          except:
              print(f'Fail jsonfile {jsonfile}')
      return dict_allocation, dict_return, dict_stats, dict_name
  \<close>
  \<^verbatim>\<open>read_json\<close> (\<^verbatim>\<open>file_utils\<close>) and \<^verbatim>\<open>get_backtest_and_symphony_name\<close>
  (\<^verbatim>\<open>data_processing\<close>) are parameters; each returns its value or raises, and
  \<open>read_json\<close> reads the files of the world. The extraction parameter stands for the call
  together with the unpacking of its result into five names.

  The body of the \<^verbatim>\<open>try\<close> is a sequence of steps, each of which may raise. The
  dictionaries are mutated in place, so what a step stored before a later step raised
  stays stored: \<open>try_body\<close> returns the exception, if any, with the dictionaries as they
  are at that point.
\<close>

type_synonym ('k, 'a, 'r, 's, 'm) dicts =
  "('k, 'a) dict \<times> ('k, 'r) dict \<times> ('k, 's) dict \<times> ('k, 'm) dict"

definition try_body ::
  "(path \<Rightarrow> error + 'j) \<Rightarrow> ('j \<Rightarrow> error + 'a \<times> 'r \<times> 's \<times> 'm \<times> 'k) \<Rightarrow> ('k \<Rightarrow> bool) \<Rightarrow>
   path \<Rightarrow> ('k, 'a, 'r, 's, 'm) dicts \<Rightarrow> error option \<times> ('k, 'a, 'r, 's, 'm) dicts" where
  "try_body read get_backtest_and_symphony_name hashable jsonfile ds =
     (case ds of (dict_allocation, dict_return, dict_stats, dict_name) \<Rightarrow>
      (case read jsonfile of
         Inl e \<Rightarrow> (Some e, ds)
       | Inr jsond \<Rightarrow>
      (case get_backtest_and_symphony_name jsond of
         Inl e \<Rightarrow> (Some e, ds)
       | Inr (df_allocations, df_return, stats, symphony_name, id') \<Rightarrow>
      (case setitem hashable dict_name id' symphony_name of
         Inl e \<Rightarrow> (Some e, (dict_allocation, dict_return, dict_stats, dict_name))
       | Inr dict_name1 \<Rightarrow>
      (case setitem hashable dict_stats id' stats of
         Inl e \<Rightarrow> (Some e, (dict_allocation, dict_return, dict_stats, dict_name1))
       | Inr dict_stats1 \<Rightarrow>
      (case setitem hashable dict_return id' df_return of
         Inl e \<Rightarrow> (Some e, (dict_allocation, dict_return, dict_stats1, dict_name1))
       | Inr dict_return1 \<Rightarrow>
      (case setitem hashable dict_allocation id' df_allocations of
         Inl e \<Rightarrow> (Some e, (dict_allocation, dict_return1, dict_stats1, dict_name1))
       | Inr dict_allocation1 \<Rightarrow>
           (None, (dict_allocation1, dict_return1, dict_stats1, dict_name1)))))))))"

fun backtest_results_loop ::
  "(('j, 'd) filesys \<Rightarrow> path \<Rightarrow> error + 'j) \<Rightarrow>
   ('j \<Rightarrow> error + 'a \<times> 'r \<times> 's \<times> 'm \<times> 'k) \<Rightarrow> ('k \<Rightarrow> bool) \<Rightarrow>
   nat \<Rightarrow> path list \<Rightarrow> ('k, 'a, 'r, 's, 'm) dicts \<Rightarrow> ('n, 'j, 'd) world \<Rightarrow>
   ('k, 'a, 'r, 's, 'm) dicts \<times> ('n, 'j, 'd) world" where
  "backtest_results_loop read_json get_backtest_and_symphony_name hashable index [] ds w =
     (ds, w)"
| "backtest_results_loop read_json get_backtest_and_symphony_name hashable index
     (jsonfile # rest) ds w =
     (let w1 = (if index mod 20 = 0 then emit (Print_Index index) w else w);
          (raised, ds1) =
             try_body (read_json (files w1)) get_backtest_and_symphony_name hashable
               jsonfile ds;
          w2 = (case raised of None \<Rightarrow> w1 | Some e \<Rightarrow> emit (Print_Fail jsonfile) w1)
      in backtest_results_loop read_json get_backtest_and_symphony_name hashable
           (Suc index) rest ds1 w2)"

definition process_backtest_results ::
  "(('j, 'd) filesys \<Rightarrow> path \<Rightarrow> error + 'j) \<Rightarrow>
   ('j \<Rightarrow> error + 'a \<times> 'r \<times> 's \<times> 'm \<times> 'k) \<Rightarrow> ('k \<Rightarrow> bool) \<Rightarrow>
   path list \<Rightarrow> ('n, 'j, 'd) world \<Rightarrow>
   ('k, 'a, 'r, 's, 'm) dicts \<times> ('n, 'j, 'd) world" where
  "process_backtest_results read_json get_backtest_and_symphony_name hashable jsonfiles w =
     backtest_results_loop read_json get_backtest_and_symphony_name hashable 0 jsonfiles
       ([], [], [], []) w"

text \<open>
  What one file yields when its read, its extraction and the hashing of its identifier
  all succeed: the five extracted values. A file that yields nothing is malformed.
\<close>

definition extracted ::
  "(path \<Rightarrow> error + 'j) \<Rightarrow> ('j \<Rightarrow> error + 'a \<times> 'r \<times> 's \<times> 'm \<times> 'k) \<Rightarrow> ('k \<Rightarrow> bool) \<Rightarrow>
   path \<Rightarrow> ('a \<times> 'r \<times> 's \<times> 'm \<times> 'k) option" where
  "extracted read get_backtest_and_symphony_name hashable jsonfile =
     (case read jsonfile of
        Inl e \<Rightarrow> None
      | Inr jsond \<Rightarrow>
          (case get_backtest_and_symphony_name jsond of
             Inl e \<Rightarrow> None
           | Inr (df_allocations, df_return, stats, symphony_name, id') \<Rightarrow>
               if hashable id' then Some (df_allocations, df_return, stats, symphony_name, id')
               else None))"

definition id_of :: "'a \<times> 'r \<times> 's \<times> 'm \<times> 'k \<Rightarrow> 'k" where
  "id_of x = (case x of (df_allocations, df_return, stats, symphony_name, id') \<Rightarrow> id')"

text \<open>The identifiers that the files of a list yield, in the order of the files.\<close>

definition ids_in ::
  "(path \<Rightarrow> error + 'j) \<Rightarrow> ('j \<Rightarrow> error + 'a \<times> 'r \<times> 's \<times> 'm \<times> 'k) \<Rightarrow> ('k \<Rightarrow> bool) \<Rightarrow>
   path list \<Rightarrow> 'k list" where
  "ids_in read get_backtest_and_symphony_name hashable jsonfiles =
     map id_of (List.map_filter (extracted read get_backtest_and_symphony_name hashable)
       jsonfiles)"

section \<open>Source extractor\<close>

text \<open>\<^verbatim>\<open>os.path.join\<close> of two components, on POSIX.\<close>

definition join :: "path \<Rightarrow> string \<Rightarrow> path" where
  "join a b =
     (if b \<noteq> [] \<and> hd b = CHR ''/'' then b
      else if a = [] \<or> last a = CHR ''/'' then a @ b
      else a @ ''/'' @ b)"

text \<open>
  \<^verbatim>\<open>
  def process_discord_exports(dirpath):
      jsonfiles = [join(dirpath, f) for f in listdir(dirpath) if isfile(join(dirpath, f))]
      symphonies_dict = {}
      for target_file in jsonfiles:
          print(f"Processing file: {target_file}")
          symphonies_dict.update(get_symphonies(target_file))
      return symphonies_dict
  \<close>
  \<^verbatim>\<open>listdir\<close>, \<^verbatim>\<open>isfile\<close> and \<^verbatim>\<open>get_symphonies\<close> are parameters that read the files
  of the world; the order in which \<^verbatim>\<open>listdir\<close> reports the names is part of what it
  reads. \<^verbatim>\<open>listdir\<close> and \<^verbatim>\<open>get_symphonies\<close> return or raise; nothing catches the
  exception, so it ends the function. \<^verbatim>\<open>dict.update\<close> stores the items of its
  argument one by one.
\<close>

definition dict_update :: "('k, 'v) dict \<Rightarrow> ('k, 'v) dict \<Rightarrow> ('k, 'v) dict" where
  "dict_update d other = fold (\<lambda>(k, v) acc. AList.update k v acc) other d"

fun discord_loop ::
  "(('j, 'd) filesys \<Rightarrow> path \<Rightarrow> error + (sid, 's) dict) \<Rightarrow> path list \<Rightarrow>
   (sid, 's) dict \<Rightarrow> ('n, 'j, 'd) world \<Rightarrow>
   (error + (sid, 's) dict) \<times> ('n, 'j, 'd) world" where
  "discord_loop get_symphonies [] symphonies_dict w = (Inr symphonies_dict, w)"
| "discord_loop get_symphonies (target_file # rest) symphonies_dict w =
     (let w1 = emit (Print_Processing target_file) w
      in case get_symphonies (files w1) target_file of
           Inl e \<Rightarrow> (Inl e, w1)
         | Inr found \<Rightarrow> discord_loop get_symphonies rest (dict_update symphonies_dict found) w1)"

definition process_discord_exports ::
  "(('j, 'd) filesys \<Rightarrow> path \<Rightarrow> error + string list) \<Rightarrow>
   (('j, 'd) filesys \<Rightarrow> path \<Rightarrow> bool) \<Rightarrow>
   (('j, 'd) filesys \<Rightarrow> path \<Rightarrow> error + (sid, 's) dict) \<Rightarrow>
   path \<Rightarrow> ('n, 'j, 'd) world \<Rightarrow> (error + (sid, 's) dict) \<times> ('n, 'j, 'd) world" where
  "process_discord_exports listdir isfile get_symphonies dirpath w =
     (case listdir (files w) dirpath of
        Inl e \<Rightarrow> (Inl e, w)
      | Inr names \<Rightarrow>
          (let jsonfiles = [join dirpath f. f \<leftarrow> names, isfile (files w) (join dirpath f)]
           in discord_loop get_symphonies jsonfiles [] w))"

section \<open>Metrics aggregator\<close>

text \<open>
  Modelled from the spec: \<^verbatim>\<open>merge_dicts\<close> of \<^verbatim>\<open>data_processing\<close> is not in the
  notebook, which only calls it. The specification has the merge of two metric mappings
  keep every key of both and prefer the second mapping's value where they overlap. It is
  written as Python would (\<^verbatim>\<open>merged = dict(d1); merged.update(d2)\<close>): a copy of the
  first mapping, into which the items of the second are stored one by one.
\<close>

definition merge_dicts :: "('k, 'v) dict \<Rightarrow> ('k, 'v) dict \<Rightarrow> ('k, 'v) dict" where
  "merge_dicts d1 d2 = dict_update d1 d2"


section \<open>Main workflow\<close>

text \<open>
  The helpers that \<^verbatim>\<open>main_data_collection_workflow\<close> imports, as one record. The
  network helpers report a failure in their response; the helpers that read local files
  return or raise; the others compute a value. \<open>get_start_end_date\<close> and
  \<open>get_csv_name\<close> are fixed for one run: the specification derives the paths from the
  dataset name and the date of the run. \<open>oos_dates\<close> stands for
  \<^verbatim>\<open>dict(df_response[['symphony_sid', 'backtest_start_date']].values)\<close>, which raises
  when the response frame lacks one of the two columns.
\<close>

record ('n, 'j, 'd, 's, 'v, 'k) helpers =
  get_start_end_date :: "string \<times> string"
  listdir :: "('j, 'd) filesys \<Rightarrow> path \<Rightarrow> error + string list"
  isfile :: "('j, 'd) filesys \<Rightarrow> path \<Rightarrow> bool"
  get_symphonies :: "('j, 'd) filesys \<Rightarrow> path \<Rightarrow> error + (sid, 's) dict"
  symphonies_to_df :: "(sid, 's) dict \<Rightarrow> dataframe"
  get_csv_name :: "string \<Rightarrow> path"
  fetch_symphony :: "'n \<Rightarrow> sid \<Rightarrow> 'j response \<times> 'n"
  response_to_dataframe :: "'j list \<Rightarrow> 'd"
  fetch_backtest_raw :: "'n \<Rightarrow> sid \<Rightarrow> string \<Rightarrow> string \<Rightarrow> 'j response \<times> 'n"
  read_json :: "('j, 'd) filesys \<Rightarrow> path \<Rightarrow> error + 'j"
  get_backtest_and_symphony_name :: "'j \<Rightarrow> error + 'v \<times> 'v \<times> 'v \<times> 'v \<times> 'k"
  hashable :: "'k \<Rightarrow> bool"
  calculate_quantstats_metrics :: "('k, 'v) dict \<Rightarrow> ('k, 'v) dict"
  oos_dates :: "'d \<Rightarrow> error + (sid, string) dict"
  calculate_oos_stats :: "('k, 'v) dict \<Rightarrow> (sid, string) dict \<Rightarrow> ('k, 'v) dict"
  convert_sid_dict_to_df :: "('k, 'v) dict \<Rightarrow> ('k, 'v) dict \<Rightarrow> 'd"

text \<open>
  \<^verbatim>\<open>
  def main_data_collection_workflow():
      start_date, end_date = get_start_end_date()
      dirpath = '~/source/discord/archive/20241229'
      symphonies_dict = process_discord_exports(dirpath)
      df = symphonies_to_df(symphonies_dict)
      df.to_csv(get_csv_name('SYMPHONIES'))
      symphony_sid_list = df['symphony_sid'].values
      response_list, failure_list = batch_fetch_symphonies(symphony_sid_list)
      df_response = response_to_dataframe(response_list)
      df_response.to_csv(get_csv_name('OOS'))
      rlist, flist = batch_fetch_backtests(df, start_date, end_date)
      jsonfiles = [f"bin/BT-{end_date}/{sid}.json" for sid in df['symphony_sid'].values]
      dict_allocation, dict_return, dict_stats, dict_name = process_backtest_results(jsonfiles)
      dict_quant_stats = calculate_quantstats_metrics(dict_return)
      sid_to_oos = dict(df_response[['symphony_sid', 'backtest_start_date']].values)
      dict_quant_oos_stats = calculate_oos_stats(dict_return, sid_to_oos)
      dict_backtest_stats = merge_dicts(dict_stats, dict_quant_stats)
      df_backtest_stats = convert_sid_dict_to_df(dict_name, dict_backtest_stats)
      df_backtest_stats.to_csv(get_csv_name('BACKTEST'))
      df_oos_stats = convert_sid_dict_to_df(dict_name, dict_quant_oos_stats)
      df_oos_stats.to_csv(get_csv_name('OOS'))
      return df_backtest_stats, df_oos_stats
  \<close>
\<close>

definition main_data_collection_workflow ::
  "('n, 'j, 'd, 's, 'v, 'k) helpers \<Rightarrow> ('n, 'j, 'd) world \<Rightarrow>
   (error + 'd \<times> 'd) \<times> ('n, 'j, 'd) world" where
  "main_data_collection_workflow h w0 =
     (let (start_date, end_date) = get_start_end_date h;
          dirpath = ''~/source/discord/archive/20241229''
      in case process_discord_exports (listdir h) (isfile h) (get_symphonies h) dirpath w0 of
           (Inl e, w1) \<Rightarrow> (Inl e, w1)
         | (Inr symphonies_dict, w1) \<Rightarrow>
     (let df = symphonies_to_df h symphonies_dict;
          w2 = to_csv (Symphony_Table df) (get_csv_name h ''SYMPHONIES'') w1;
          symphony_sid_list = sids_of df;
          ((response_list, failure_list), w3) =
             batch_fetch_symphonies (fetch_symphony h) symphony_sid_list w2;
          df_response = response_to_dataframe h response_list;
          w4 = to_csv (Data_Table df_response) (get_csv_name h ''OOS'') w3;
          ((rlist, flist), w5) =
             batch_fetch_backtests (fetch_backtest_raw h) df start_date end_date w4;
          jsonfiles = [backtest_filename end_date sid. sid \<leftarrow> sids_of df];
          ((dict_allocation, dict_return, dict_stats, dict_name), w6) =
             process_backtest_results (read_json h) (get_backtest_and_symphony_name h)
               (hashable h) jsonfiles w5;
          dict_quant_stats = calculate_quantstats_metrics h dict_return
      in case oos_dates h df_response of
           Inl e \<Rightarrow> (Inl e, w6)
         | Inr sid_to_oos \<Rightarrow>
     (let dict_quant_oos_stats = calculate_oos_stats h dict_return sid_to_oos;
          dict_backtest_stats = merge_dicts dict_stats dict_quant_stats;
          df_backtest_stats = convert_sid_dict_to_df h dict_name dict_backtest_stats;
          w7 = to_csv (Data_Table df_backtest_stats) (get_csv_name h ''BACKTEST'') w6;
          df_oos_stats = convert_sid_dict_to_df h dict_name dict_quant_oos_stats;
          w8 = to_csv (Data_Table df_oos_stats) (get_csv_name h ''OOS'') w7
      in (Inr (df_backtest_stats, df_oos_stats), w8))))"

text \<open>The tables written by \<open>to_csv\<close>, in order, each with its path.\<close>

definition table_writes :: "('j, 'd) event list \<Rightarrow> (path \<times> ('j, 'd) content) list" where
  "table_writes evs =
     concat (map (\<lambda>e. case e of
                          File_Write p (Json_Doc j) \<Rightarrow> []
                        | File_Write p c \<Rightarrow> [(p, c)]
                        | _ \<Rightarrow> []) evs)"

section \<open>Pacing schedules and sample inputs\<close>

text \<open>
  The pauses and calls that the symphony fetcher is to perform for a list of identifiers
  paired with their positions: a pause of one second before the call at every position
  divisible by 20, and the call.
\<close>

definition symphony_schedule :: "(nat \<times> sid) list \<Rightarrow> ('j, 'd) event list" where
  "symphony_schedule keyed =
     concat (map (\<lambda>(i, sid). (if i mod 20 = 0 then [Sleep 1] else []) @ [Fetch_Symphony sid])
       keyed)"

text \<open>
  A sample remote service: it counts the calls it has served and answers every identifier
  but \<open>''bad''\<close> with status 200; and a world with no files and no effects yet.
\<close>

definition demo_fetch :: "nat \<Rightarrow> sid \<Rightarrow> string response \<times> nat" where
  "demo_fetch n sid =
     ((sid \<noteq> ''bad'', if sid = ''bad'' then 404 else 200, ''doc-'' @ sid), Suc n)"

definition demo_world :: "(nat, string, string) world" where
  "demo_world = \<lparr>net = 0, files = Map.empty, trace = []\<rparr>"

text \<open>
  The pauses, calls and writes that the backtest fetcher performs for the rows of a frame
  paired with the responses they receive: the pause goes by the label of the row.
\<close>

definition backtest_schedule ::
  "string \<Rightarrow> string \<Rightarrow> ((int \<times> row) \<times> 'j response) list \<Rightarrow> ('j, 'd) event list" where
  "backtest_schedule start_date end_date served =
     concat (map (\<lambda>((idx, row), (ok, status_code, jsond)).
                    (if idx mod 20 = 0 then [Sleep 1] else []) @
                    [Fetch_Backtest (symphony_sid row) start_date end_date,
                     File_Write (backtest_filename end_date (symphony_sid row)) (Json_Doc jsond)])
       served)"

text \<open>The rows of a frame as (label, identifier) pairs.\<close>

definition labelled_sids :: "dataframe \<Rightarrow> (int \<times> sid) list" where
  "labelled_sids df = map (\<lambda>(idx, row). (idx, symphony_sid row)) df"

text \<open>
  The files after every response of a run has been written, in order, each to the file of
  its identifier.
\<close>

definition store_responses ::
  "string \<Rightarrow> (sid \<times> 'j response) list \<Rightarrow> ('j, 'd) filesys \<Rightarrow> ('j, 'd) filesys" where
  "store_responses end_date served fs =
     foldl (\<lambda>fs (sid, (ok, status_code, jsond)).
              fs(backtest_filename end_date sid \<mapsto> Json_Doc jsond)) fs served"

text \<open>The responses that the rows of a frame receive, in order.\<close>

definition backtest_outcomes ::
  "('n \<Rightarrow> sid \<Rightarrow> string \<Rightarrow> string \<Rightarrow> 'j response \<times> 'n) \<Rightarrow> string \<Rightarrow> string \<Rightarrow>
   'n \<Rightarrow> dataframe \<Rightarrow> 'j response list" where
  "backtest_outcomes fetch start_date end_date n df =
     fetch_outcomes (\<lambda>n sid. fetch n sid start_date end_date) n (sids_of df)"

text \<open>One call and the write of its response, whatever the flag of the response.\<close>

definition call_and_write :: "string \<Rightarrow> string \<Rightarrow> sid \<times> 'j response \<Rightarrow> ('j, 'd) event list" where
  "call_and_write start_date end_date served =
     (case served of (sid, (ok, status_code, jsond)) \<Rightarrow>
        [Fetch_Backtest sid start_date end_date,
         File_Write (backtest_filename end_date sid) (Json_Doc jsond)])"

text \<open>Sample inputs of the backtest fetcher.\<close>

definition demo_fetch_backtest :: "nat \<Rightarrow> sid \<Rightarrow> string \<Rightarrow> string \<Rightarrow> string response \<times> nat" where
  "demo_fetch_backtest n sid start_date end_date =
     ((sid \<noteq> ''bad'', if sid = ''bad'' then 404 else 200, ''bt-'' @ sid), Suc n)"

definition demo_row :: "sid \<Rightarrow> row" where
  "demo_row sid = \<lparr>symphony_sid = sid, title = ''t'', name = ''n''\<rparr>"

text \<open>
  A frame with the default index, and a frame whose labels are not the positions of its
  rows (what remains, say, of a longer frame after its first 19 rows were dropped).
\<close>

definition demo_frame :: dataframe where
  "demo_frame = [(0, demo_row ''a''), (1, demo_row ''bad'')]"

definition shifted_frame :: dataframe where
  "shifted_frame = [(19, demo_row ''a''), (20, demo_row ''b'')]"

text \<open>One call and write, with the pause that its position asks for.\<close>

definition paced_call_and_write ::
  "string \<Rightarrow> string \<Rightarrow> (nat \<times> sid) \<times> 'j response \<Rightarrow> ('j, 'd) event list" where
  "paced_call_and_write start_date end_date served =
     (case served of ((i, sid), r) \<Rightarrow>
        (if i mod 20 = 0 then [Sleep 1] else []) @ call_and_write start_date end_date (sid, r))"

section \<open>Result processor: auxiliary notions and sample inputs\<close>

text \<open>
  What the four assignments of the \<^verbatim>\<open>try\<close> body do to the dictionaries when none of
  them raises.
\<close>

definition store_extracted ::
  "('k, 'a, 'r, 's, 'm) dicts \<Rightarrow> 'a \<times> 'r \<times> 's \<times> 'm \<times> 'k \<Rightarrow> ('k, 'a, 'r, 's, 'm) dicts" where
  "store_extracted ds x =
     (case ds of (dict_allocation, dict_return, dict_stats, dict_name) \<Rightarrow>
      case x of (df_allocations, df_return, stats, symphony_name, id') \<Rightarrow>
        (AList.update id' df_allocations dict_allocation,
         AList.update id' df_return dict_return,
         AList.update id' stats dict_stats,
         AList.update id' symphony_name dict_name))"

text \<open>The four dictionaries have the same keys, in the same order.\<close>

definition same_keys :: "('k, 'a, 'r, 's, 'm) dicts \<Rightarrow> bool" where
  "same_keys ds =
     (case ds of (dict_allocation, dict_return, dict_stats, dict_name) \<Rightarrow>
        keys dict_allocation = keys dict_return \<and> keys dict_return = keys dict_stats \<and>
        keys dict_stats = keys dict_name)"

text \<open>The line printed for a file that is skipped.\<close>

definition is_fail :: "('j, 'd) event \<Rightarrow> bool" where
  "is_fail e = (case e of Print_Fail _ \<Rightarrow> True | _ \<Rightarrow> False)"

text \<open>
  Sample helpers of the result processor: reading a file gives the JSON document it holds;
  extraction fails on the empty document and otherwise takes the first character of the
  document as the identifier. The files \<open>one.json\<close> and \<open>two.json\<close> embed the same
  identifier, and \<open>broken.json\<close> is malformed.
\<close>

definition demo_read_json :: "(string, string) filesys \<Rightarrow> path \<Rightarrow> error + string" where
  "demo_read_json fs p =
     (case fs p of
        None \<Rightarrow> Inl FileNotFoundError
      | Some (Json_Doc j) \<Rightarrow> Inr j
      | Some _ \<Rightarrow> Inl JSONDecodeError)"

definition demo_extract ::
  "string \<Rightarrow> error + string \<times> string \<times> string \<times> string \<times> string" where
  "demo_extract j =
     (if j = [] then Inl KeyError
      else Inr (''alloc-'' @ j, ''ret-'' @ j, ''stats-'' @ j, ''name-'' @ j, take 1 j))"

definition demo_disk :: "(nat, string, string) world" where
  "demo_disk =
     \<lparr>net = 0,
      files = [''one.json'' \<mapsto> Json_Doc ''k1'', ''two.json'' \<mapsto> Json_Doc ''k2'',
               ''other.json'' \<mapsto> Json_Doc ''z9'', ''broken.json'' \<mapsto> Json_Doc []],
      trace = []\<rparr>"

text \<open>The four dictionaries hold, at its identifier, the values extracted from a file.\<close>

definition holds :: "('k, 'a, 'r, 's, 'm) dicts \<Rightarrow> 'a \<times> 'r \<times> 's \<times> 'm \<times> 'k \<Rightarrow> bool" where
  "holds ds x =
     (case ds of (dict_allocation, dict_return, dict_stats, dict_name) \<Rightarrow>
      case x of (df_allocations, df_return, stats, symphony_name, id') \<Rightarrow>
        map_of dict_allocation id' = Some df_allocations \<and>
        map_of dict_return id' = Some df_return \<and>
        map_of dict_stats id' = Some stats \<and>
        map_of dict_name id' = Some symphony_name)"

section \<open>Source extractor: sample inputs\<close>

text \<open>
  A sample export directory: two export files and a subdirectory. Both files mention the
  symphony \<open>s1\<close>, with different titles.
\<close>

definition demo_dirpath :: path where
  "demo_dirpath = ''~/source/discord/archive/20241229''"

definition demo_listdir :: "(string, string) filesys \<Rightarrow> path \<Rightarrow> error + string list" where
  "demo_listdir fs p =
     (if p = demo_dirpath then Inr [''a.json'', ''attachments'', ''b.json'']
      else Inl FileNotFoundError)"

definition demo_isfile :: "(string, string) filesys \<Rightarrow> path \<Rightarrow> bool" where
  "demo_isfile fs p = (fs p \<noteq> None)"

definition demo_get_symphonies ::
  "(string, string) filesys \<Rightarrow> path \<Rightarrow> error + (sid, string) dict" where
  "demo_get_symphonies fs p =
     (case fs p of
        Some (Json_Doc j) \<Rightarrow> Inr [(take 2 j, ''title-'' @ j)]
      | _ \<Rightarrow> Inl JSONDecodeError)"

definition demo_archive :: "(nat, string, string) world" where
  "demo_archive =
     \<lparr>net = 0,
      files = [''~/source/discord/archive/20241229/a.json'' \<mapsto> Json_Doc ''s1-old'',
               ''~/source/discord/archive/20241229/b.json'' \<mapsto> Json_Doc ''s1-new''],
      trace = []\<rparr>"

section \<open>Main workflow: sample helpers\<close>

text \<open>
  Sample helpers for one run of the workflow over the sample export directory: the frame
  of the symphonies has the default index, the CSV paths are derived from the dataset name
  under one dated directory, and the tables are strings.
\<close>

definition demo_helpers :: "(nat, string, string, string, string, string) helpers" where
  "demo_helpers =
     \<lparr>get_start_end_date = (''2024-01-01'', ''2024-12-31''),
      listdir = demo_listdir,
      isfile = demo_isfile,
      get_symphonies = demo_get_symphonies,
      symphonies_to_df =
        (\<lambda>d. map (\<lambda>(i, (sid, t)). (int i, \<lparr>symphony_sid = sid, title = t, name = t\<rparr>))
               (enumerate 0 d)),
      get_csv_name = (\<lambda>dataset. ''bin/SYMPHONIES-2024-12-31/'' @ dataset @ ''.csv''),
      fetch_symphony = demo_fetch,
      response_to_dataframe = concat,
      fetch_backtest_raw = demo_fetch_backtest,
      read_json = demo_read_json,
      get_backtest_and_symphony_name = demo_extract,
      hashable = (\<lambda>k. True),
      calculate_quantstats_metrics = map (\<lambda>(k, v). (k, ''quant-'' @ v)),
      oos_dates = (\<lambda>d. Inr []),
      calculate_oos_stats = (\<lambda>d dates. map (\<lambda>(k, v). (k, ''oos-'' @ v)) d),
      convert_sid_dict_to_df = (\<lambda>names stats. concat (map snd stats))\<rparr>"

section \<open>Basic facts about effects and the symphony loop\<close>

lemma length_fetch_outcomes [simp]: "length (fetch_outcomes fetch n sids) = length sids"
  by (induction sids arbitrary: n) (auto split: prod.splits)

lemma net_emit [simp]: "net (emit e w) = net w" by (simp add: emit_def)
lemma net_sleep [simp]: "net (sleep k w) = net w" by (simp add: sleep_def)
lemma files_emit [simp]: "files (emit e w) = files w" by (simp add: emit_def)
lemma files_sleep [simp]: "files (sleep k w) = files w" by (simp add: sleep_def)
lemma trace_emit [simp]: "trace (emit e w) = trace w @ [e]" by (simp add: emit_def)
lemma trace_sleep [simp]: "trace (sleep k w) = trace w @ [Sleep k]" by (simp add: sleep_def)

lemma failures_Cons:
  "failures ((i, sid) # keyed) ((ok, code, j) # outs) =
     (if ok then [] else [(i, sid, code)]) @ failures keyed outs"
  by (simp add: failures_def)

lemma failures_Nil [simp]: "failures [] outs = []"
  by (simp add: failures_def)

lemma successes_Cons:
  "successes ((ok, code, j) # outs) = (if ok then [j] else []) @ successes outs"
  by (simp add: successes_def)

lemma successes_Nil [simp]: "successes [] = []"
  by (simp add: successes_def)

lemma length_successes: "length (successes outs) = length (filter (\<lambda>(ok, r). ok) outs)"
  by (induction outs) (auto simp: successes_Cons)

lemma length_failures:
  "length keyed = length outs \<Longrightarrow>
   length (failures keyed outs) = length (filter (\<lambda>(ok, r). \<not> ok) outs)"
  by (induction keyed outs rule: list_induct2) (auto simp: failures_Cons)

lemma symphonies_loop_lists:
  "fst (symphonies_loop fetch idx sids (rl, fl) w) =
     (rl @ successes (fetch_outcomes fetch (net w) sids),
      fl @ failures (enumerate idx sids) (fetch_outcomes fetch (net w) sids))"
proof (induction sids arbitrary: idx rl fl w)
  case Nil
  show ?case by simp
next
  case (Cons sid rest)
  show ?case
    by (simp add: Cons.IH Let_def failures_Cons successes_Cons split: prod.splits)
qed

lemma is_print_simps [simp]:
  "is_print (Print_Sleeping i k)" "is_print (Print_Processing p)" "is_print (Print_Index n)"
  "is_print (Print_Fail p)" "\<not> is_print (Sleep s)" "\<not> is_print (Fetch_Symphony sid)"
  "\<not> is_print (Fetch_Backtest sid a b)" "\<not> is_print (File_Write p c)"
  by (simp_all add: is_print_def)

lemma is_call_simps [simp]:
  "\<not> is_call (Print_Sleeping i k)" "\<not> is_call (Print_Processing p)" "\<not> is_call (Print_Index n)"
  "\<not> is_call (Print_Fail p)" "\<not> is_call (Sleep s)" "is_call (Fetch_Symphony sid)"
  "is_call (Fetch_Backtest sid a b)" "\<not> is_call (File_Write p c)"
  by (simp_all add: is_call_def)

lemma is_write_simps [simp]:
  "\<not> is_write (Print_Sleeping i k)" "\<not> is_write (Print_Processing p)" "\<not> is_write (Print_Index n)"
  "\<not> is_write (Print_Fail p)" "\<not> is_write (Sleep s)" "\<not> is_write (Fetch_Symphony sid)"
  "\<not> is_write (Fetch_Backtest sid a b)" "is_write (File_Write p c)"
  by (simp_all add: is_write_def)

lemma symphonies_loop_trace:
  "\<exists>evs. trace (snd (symphonies_loop fetch idx sids acc w)) = trace w @ evs \<and>
         filter (\<lambda>e. \<not> is_print e) evs = symphony_schedule (enumerate idx sids)"
proof (induction sids arbitrary: idx acc w)
  case Nil
  show ?case by (cases acc) (simp add: symphony_schedule_def)
next
  case (Cons sid rest)
  obtain rl fl where acc: "acc = (rl, fl)" by (cases acc)
  define w1 where "w1 = (if idx mod 20 = 0
                then sleep 1 (emit (Print_Sleeping (int idx) (length fl)) w)
                else w)"
  obtain ok code j n' where f: "fetch (net w1) sid = ((ok, code, j), n')"
    by (metis prod_cases3 surj_pair)
  define w2 where "w2 = emit (Fetch_Symphony sid) (w1\<lparr>net := n'\<rparr>)"
  define acc' where "acc' = (if ok then (rl @ [j], fl) else (rl, fl @ [(idx, sid, code)]))"
  have step: "symphonies_loop fetch idx (sid # rest) acc w = symphonies_loop fetch (Suc idx) rest acc' w2"
    using f by (simp add: acc w1_def w2_def acc'_def Let_def)
  have t2: "trace w2 = trace w @ (if idx mod 20 = 0 then [Print_Sleeping (int idx) (length fl), Sleep 1] else []) @ [Fetch_Symphony sid]"
    by (simp add: w2_def w1_def)
  from Cons.IH[of "Suc idx" acc' w2] obtain evs where
    evs: "trace (snd (symphonies_loop fetch (Suc idx) rest acc' w2)) = trace w2 @ evs"
      "filter (\<lambda>e. \<not> is_print e) evs = symphony_schedule (enumerate (Suc idx) rest)"
    by blast
  show ?case
    unfolding step evs(1) t2
    by (rule exI[of _ "((if idx mod 20 = 0 then [Print_Sleeping (int idx) (length fl), Sleep 1] else []) @ [Fetch_Symphony sid]) @ evs"])
       (simp add: evs(2) symphony_schedule_def)
qed

lemma symphonies_loop_files:
  "files (snd (symphonies_loop fetch idx sids acc w)) = files w"
proof (induction sids arbitrary: idx acc w)
  case Nil
  show ?case by (cases acc) simp
next
  case (Cons sid rest)
  show ?case
    by (cases acc) (simp add: Cons.IH Let_def split: prod.splits)
qed

lemma calls_symphony_schedule:
  "filter is_call (symphony_schedule keyed) = map (\<lambda>(i, sid). Fetch_Symphony sid) keyed"
  by (induction keyed) (auto simp: symphony_schedule_def)

lemma writes_symphony_schedule:
  "filter is_write (symphony_schedule keyed) = []"
  by (induction keyed) (auto simp: symphony_schedule_def)

lemma filter_unprinted_calls:
  "filter is_call (filter (\<lambda>e. \<not> is_print e) evs) = filter is_call evs"
  by (induction evs) (auto simp: is_call_def is_print_def split: event.splits)

lemma filter_unprinted_writes:
  "filter is_write (filter (\<lambda>e. \<not> is_print e) evs) = filter is_write evs"
  by (induction evs) (auto simp: is_write_def is_print_def split: event.splits)

lemma effects_since_append: "trace w' = trace w @ evs \<Longrightarrow> effects_since w w' = evs"
  by (simp add: effects_since_def)

lemma map_snd_enumerate: "map (\<lambda>(i, x). f x) (enumerate n xs) = map f xs"
  by (induction xs arbitrary: n) auto

section \<open>Symphony fetcher: calls and bookkeeping\<close>

text \<open>
  C1. For every list of identifiers, \<open>batch_fetch_symphonies\<close> calls the service once
  for each element, in order, and nothing else (the calls among its effects are exactly
  the list of identifiers); the success list and the failure list have lengths that sum
  to the length of the input; the success list holds the payloads of the responses whose
  flag is set and the failure list one record, with the position, for each response whose
  flag is not set, so every element contributes to exactly one of the two lists.
\<close>

theorem batch_fetch_symphonies_counts:
  assumes "batch_fetch_symphonies fetch symphony_sid_list w = ((response_list, failure_list), w')"
  shows "filter is_call (effects_since w w') = map Fetch_Symphony symphony_sid_list \<and>
         length response_list + length failure_list = length symphony_sid_list \<and>
         response_list = successes (fetch_outcomes fetch (net w) symphony_sid_list) \<and>
         failure_list = failures (enumerate 0 symphony_sid_list)
                          (fetch_outcomes fetch (net w) symphony_sid_list) \<and>
         length response_list =
           length (filter (\<lambda>(ok, r). ok) (fetch_outcomes fetch (net w) symphony_sid_list)) \<and>
         length failure_list =
           length (filter (\<lambda>(ok, r). \<not> ok) (fetch_outcomes fetch (net w) symphony_sid_list))"
proof -
  let ?outs = "fetch_outcomes fetch (net w) symphony_sid_list"
  have run: "symphonies_loop fetch 0 symphony_sid_list ([], []) w = ((response_list, failure_list), w')"
    using assms by (simp add: batch_fetch_symphonies_def)
  have lists: "response_list = successes ?outs"
    "failure_list = failures (enumerate 0 symphony_sid_list) ?outs"
    using symphonies_loop_lists[of fetch 0 symphony_sid_list "[]" "[]" w] run by simp_all
  have n_ok: "length response_list = length (filter (\<lambda>(ok, r). ok) ?outs)"
    by (simp add: lists(1) length_successes)
  have n_bad: "length failure_list = length (filter (\<lambda>(ok, r). \<not> ok) ?outs)"
    by (simp add: lists(2) length_failures)
  have total: "length response_list + length failure_list = length symphony_sid_list"
    using sum_length_filter_compl[of "\<lambda>(ok, r). ok" ?outs]
    by (simp add: n_ok n_bad case_prod_unfold)
  obtain evs where evs: "trace w' = trace w @ evs"
    "filter (\<lambda>e. \<not> is_print e) evs = symphony_schedule (enumerate 0 symphony_sid_list)"
    using symphonies_loop_trace[of fetch 0 symphony_sid_list "([], [])" w] run by auto
  have "filter is_call evs = filter is_call (symphony_schedule (enumerate 0 symphony_sid_list))"
    using filter_unprinted_calls[of evs] by (simp add: evs(2))
  then have calls: "filter is_call (effects_since w w') = map Fetch_Symphony symphony_sid_list"
    by (simp add: effects_since_append[OF evs(1)] calls_symphony_schedule map_snd_enumerate)
  from calls total lists n_ok n_bad show ?thesis by blast
qed

theorem batch_fetch_symphonies_counts_witness:
  "batch_fetch_symphonies demo_fetch [''a'', ''bad'', ''c''] demo_world =
     (([''doc-a'', ''doc-c''], [(1, ''bad'', 404)]),
      snd (batch_fetch_symphonies demo_fetch [''a'', ''bad'', ''c''] demo_world)) \<and>
   length [''doc-a'', ''doc-c''] + length [(1::nat, ''bad'', 404::int)] = length [''a'', ''bad'', ''c'']"
proof -
  have run: "batch_fetch_symphonies demo_fetch [''a'', ''bad'', ''c''] demo_world =
     (([''doc-a'', ''doc-c''], [(1, ''bad'', 404)]),
      snd (batch_fetch_symphonies demo_fetch [''a'', ''bad'', ''c''] demo_world))"
    by (simp add: batch_fetch_symphonies_def demo_fetch_def demo_world_def Let_def prod_eq_iff)
  have "length [''doc-a'', ''doc-c''] + length [(1::nat, ''bad'', 404::int)] =
        length [''a'', ''bad'', ''c'']"
    using batch_fetch_symphonies_counts[OF run] by (rule conjunct1[OF conjunct2])
  with run show ?thesis by (rule conjI)
qed

section \<open>Backtest fetcher: writes and pacing\<close>

lemma net_write_file [simp]: "net (write_file p c w) = net w"
  by (simp add: write_file_def)
lemma files_write_file [simp]: "files (write_file p c w) = (files w)(p \<mapsto> c)"
  by (simp add: write_file_def)
lemma trace_write_file [simp]: "trace (write_file p c w) = trace w @ [File_Write p c]"
  by (simp add: write_file_def)

lemma backtests_loop_lists:
  "fst (backtests_loop fetch df sd ed (rl, fl) w) =
     (rl @ successes (fetch_outcomes (\<lambda>n sid. fetch n sid sd ed) (net w) (sids_of df)),
      fl @ failures (labelled_sids df)
             (fetch_outcomes (\<lambda>n sid. fetch n sid sd ed) (net w) (sids_of df)))"
proof (induction df arbitrary: rl fl w)
  case Nil
  show ?case by (simp add: sids_of_def labelled_sids_def)
next
  case (Cons r rest)
  obtain idx row where r: "r = (idx, row)" by (cases r)
  have s: "sids_of ((idx, row) # rest) = symphony_sid row # sids_of rest"
    "labelled_sids ((idx, row) # rest) = (idx, symphony_sid row) # labelled_sids rest"
    by (simp_all add: sids_of_def labelled_sids_def)
  show ?case
    unfolding r s
    by (simp add: Cons.IH Let_def failures_Cons successes_Cons write_json_def split: prod.splits)
qed

lemma backtests_loop_trace:
  "\<exists>evs. trace (snd (backtests_loop fetch df sd ed acc w)) = trace w @ evs \<and>
         filter (\<lambda>e. \<not> is_print e) evs =
           backtest_schedule sd ed
             (zip df (fetch_outcomes (\<lambda>n sid. fetch n sid sd ed) (net w) (sids_of df)))"
proof (induction df arbitrary: acc w)
  case Nil
  show ?case by (cases acc) (simp add: backtest_schedule_def)
next
  case (Cons r rest)
  obtain rl fl where acc: "acc = (rl, fl)" by (cases acc)
  obtain idx row where r: "r = (idx, row)" by (cases r)
  define w1 where "w1 = (if idx mod 20 = 0
                then sleep 1 (emit (Print_Sleeping idx (length fl)) w)
                else w)"
  let ?sid = "symphony_sid row"
  obtain ok code j n' where f: "fetch (net w) ?sid sd ed = ((ok, code, j), n')"
    by (metis prod_cases3 surj_pair)
  have nw1: "net w1 = net w" by (simp add: w1_def)
  define w3 where "w3 = write_json j (backtest_filename ed ?sid)
                          (emit (Fetch_Backtest ?sid sd ed) (w1\<lparr>net := n'\<rparr>))"
  define acc' where "acc' = (if ok then (rl @ [j], fl) else (rl, fl @ [(idx, ?sid, code)]))"
  have step: "backtests_loop fetch (r # rest) sd ed acc w = backtests_loop fetch rest sd ed acc' w3"
    using f nw1 by (simp add: acc r w1_def[symmetric] w3_def acc'_def Let_def)
  have t3: "trace w3 = trace w @
              (if idx mod 20 = 0 then [Print_Sleeping idx (length fl), Sleep 1] else []) @
              [Fetch_Backtest ?sid sd ed, File_Write (backtest_filename ed ?sid) (Json_Doc j)]"
    by (simp add: w3_def w1_def write_json_def)
  have n3: "net w3 = n'" by (simp add: w3_def write_json_def)
  have outs: "fetch_outcomes (\<lambda>n sid. fetch n sid sd ed) (net w) (sids_of (r # rest)) =
              (ok, code, j) # fetch_outcomes (\<lambda>n sid. fetch n sid sd ed) n' (sids_of rest)"
    using f by (simp add: sids_of_def r)
  from Cons.IH[of acc' w3] obtain evs where
    evs: "trace (snd (backtests_loop fetch rest sd ed acc' w3)) = trace w3 @ evs"
      "filter (\<lambda>e. \<not> is_print e) evs =
         backtest_schedule sd ed
           (zip rest (fetch_outcomes (\<lambda>n sid. fetch n sid sd ed) n' (sids_of rest)))"
    unfolding n3 by blast
  show ?case
    unfolding step evs(1) t3 outs
    by (rule exI[of _ "((if idx mod 20 = 0 then [Print_Sleeping idx (length fl), Sleep 1] else []) @
                         [Fetch_Backtest ?sid sd ed,
                          File_Write (backtest_filename ed ?sid) (Json_Doc j)]) @ evs"])
       (simp add: evs(2) backtest_schedule_def r)
qed

lemma backtests_loop_files:
  "files (snd (backtests_loop fetch df sd ed acc w)) =
     store_responses ed
       (zip (sids_of df) (fetch_outcomes (\<lambda>n sid. fetch n sid sd ed) (net w) (sids_of df)))
       (files w)"
proof (induction df arbitrary: acc w)
  case Nil
  show ?case by (cases acc) (simp add: store_responses_def sids_of_def)
next
  case (Cons r rest)
  obtain rl fl where acc: "acc = (rl, fl)" by (cases acc)
  obtain idx row where r: "r = (idx, row)" by (cases r)
  have s: "sids_of ((idx, row) # rest) = symphony_sid row # sids_of rest"
    by (simp add: sids_of_def)
  show ?case
    unfolding r s acc
    by (simp add: Cons.IH Let_def write_json_def store_responses_def fun_upd_def
          split: prod.splits)
qed


lemma backtest_filename_inj [simp]:
  "backtest_filename ed a = backtest_filename ed b \<longleftrightarrow> a = b"
  by (simp add: backtest_filename_def)

lemma store_responses_snoc:
  "store_responses ed (served @ [(sid, ok, code, j)]) fs =
     (store_responses ed served fs)(backtest_filename ed sid \<mapsto> Json_Doc j)"
  by (simp add: store_responses_def)

lemma store_responses_lookup:
  "store_responses ed served fs (backtest_filename ed sid) =
     (case map_of (rev served) sid of
        Some (ok, code, j) \<Rightarrow> Some (Json_Doc j)
      | None \<Rightarrow> fs (backtest_filename ed sid))"
proof (induction served rule: rev_induct)
  case Nil
  show ?case by (simp add: store_responses_def)
next
  case (snoc x served)
  obtain sid' ok code j where x: "x = (sid', ok, code, j)" by (metis prod_cases4)
  show ?case
    by (simp add: x store_responses_snoc snoc.IH)
qed

lemma map_of_rev_zip_served:
  assumes "sid \<in> set sids" and "length outs = length sids"
  shows "\<exists>r. map_of (rev (zip sids outs)) sid = Some r"
proof -
  have "map fst (zip sids outs) = sids"
    using assms by simp
  then have "fst ` set (zip sids outs) = set sids"
    by (metis set_map)
  then have "sid \<in> fst ` set (rev (zip sids outs))"
    using assms by simp
  then show ?thesis
    by (metis domD dom_map_of_conv_image_fst)
qed

lemma failures_subset:
  "(i, sid, code) \<in> set (failures keyed outs) \<Longrightarrow> (i, sid) \<in> set keyed"
  by (auto simp: failures_def dest: set_zip_leftD split: if_splits)

lemma labelled_sids_sid:
  "(i, sid) \<in> set (labelled_sids df) \<Longrightarrow> sid \<in> set (sids_of df)"
  by (auto simp: labelled_sids_def sids_of_def)

lemma calls_writes_backtest_schedule:
  "filter (\<lambda>e. is_call e \<or> is_write e) (backtest_schedule sd ed (zip df outs)) =
     concat (map (call_and_write sd ed) (zip (sids_of df) outs))"
proof (induction df arbitrary: outs)
  case Nil
  show ?case by (simp add: backtest_schedule_def sids_of_def)
next
  case (Cons r rest)
  obtain idx row where r: "r = (idx, row)" by (cases r)
  note IH = Cons.IH
  show ?case
  proof (cases outs)
    case Nil
    then show ?thesis by (simp add: backtest_schedule_def)
  next
    case (Cons out outs')
    obtain ok code j where out: "out = (ok, code, j)" by (cases out)
    have a: "filter (\<lambda>e. is_call e \<or> is_write e) (backtest_schedule sd ed (zip (r # rest) outs)) =
            [Fetch_Backtest (symphony_sid row) sd ed,
             File_Write (backtest_filename ed (symphony_sid row)) (Json_Doc j)] @
            filter (\<lambda>e. is_call e \<or> is_write e) (backtest_schedule sd ed (zip rest outs'))"
      by (simp add: backtest_schedule_def r Cons out)
    have b: "concat (map (call_and_write sd ed) (zip (sids_of (r # rest)) outs)) =
            [Fetch_Backtest (symphony_sid row) sd ed,
             File_Write (backtest_filename ed (symphony_sid row)) (Json_Doc j)] @
            concat (map (call_and_write sd ed) (zip (sids_of rest) outs'))"
      by (simp add: sids_of_def r Cons out call_and_write_def)
    show ?thesis
      by (simp only: a b IH[of outs'])
  qed
qed

lemma backtest_schedule_Nil [simp]: "backtest_schedule sd ed [] = []"
  by (simp add: backtest_schedule_def)

lemma backtest_schedule_Cons:
  "backtest_schedule sd ed (((idx, row), (ok, code, j)) # served) =
     (if idx mod 20 = 0 then [Sleep 1] else []) @
     [Fetch_Backtest (symphony_sid row) sd ed,
      File_Write (backtest_filename ed (symphony_sid row)) (Json_Doc j)] @
     backtest_schedule sd ed served"
  by (simp add: backtest_schedule_def)

lemma length_writes_backtest_schedule:
  "length outs = length df \<Longrightarrow>
   length (filter is_write (backtest_schedule sd ed (zip df outs))) = length df"
proof (induction df outs rule: list_induct2')
  case (4 r rest out outs')
  obtain idx row where r: "r = (idx, row)" by (cases r)
  obtain ok code j where out: "out = (ok, code, j)" by (cases out)
  from 4 show ?case by (simp add: r out backtest_schedule_Cons)
qed simp_all

lemma filter_unprinted_calls_writes:
  "filter (\<lambda>e. is_call e \<or> is_write e) (filter (\<lambda>e. \<not> is_print e) evs) =
   filter (\<lambda>e. is_call e \<or> is_write e) evs"
  by (induction evs) (auto simp: is_call_def is_write_def is_print_def split: event.splits)

text \<open>
  C3. For every frame, \<open>batch_fetch_backtests\<close> writes the raw response of every row
  to the file \<open>bin/BT-{end_date}/{sid}.json\<close> right after the call and whatever the flag
  of the response: among its effects each call is followed by the write of its response,
  the files afterwards are the files before with every response stored in order, the file
  of every identifier of the frame holds the last response fetched for it, and every
  failure record has the file of its identifier on disk.
\<close>

theorem batch_fetch_backtests_writes_every_response:
  assumes "batch_fetch_backtests fetch df start_date end_date w = ((rlist, flist), w')"
  shows "filter (\<lambda>e. is_call e \<or> is_write e) (effects_since w w') =
           concat (map (call_and_write start_date end_date)
             (zip (sids_of df) (backtest_outcomes fetch start_date end_date (net w) df))) \<and>
         files w' =
           store_responses end_date
             (zip (sids_of df) (backtest_outcomes fetch start_date end_date (net w) df))
             (files w) \<and>
         (\<forall>sid \<in> set (sids_of df). \<exists>ok status_code jsond.
            map_of (rev (zip (sids_of df)
              (backtest_outcomes fetch start_date end_date (net w) df))) sid =
              Some (ok, status_code, jsond) \<and>
            files w' (backtest_filename end_date sid) = Some (Json_Doc jsond)) \<and>
         flist = failures (labelled_sids df)
                   (backtest_outcomes fetch start_date end_date (net w) df) \<and>
         (\<forall>(idx, sid, status_code) \<in> set flist. \<exists>jsond.
            files w' (backtest_filename end_date sid) = Some (Json_Doc jsond))"
proof -
  let ?outs = "backtest_outcomes fetch start_date end_date (net w) df"
  let ?served = "zip (sids_of df) ?outs"
  have run: "backtests_loop fetch df start_date end_date ([], []) w = ((rlist, flist), w')"
    using assms by (simp add: batch_fetch_backtests_def)
  obtain evs where evs: "trace w' = trace w @ evs"
    "filter (\<lambda>e. \<not> is_print e) evs = backtest_schedule start_date end_date (zip df ?outs)"
    using backtests_loop_trace[of fetch df start_date end_date "([], [])" w] run
    by (auto simp: backtest_outcomes_def)
  have "filter (\<lambda>e. is_call e \<or> is_write e) evs =
        filter (\<lambda>e. is_call e \<or> is_write e) (backtest_schedule start_date end_date (zip df ?outs))"
    using filter_unprinted_calls_writes[of evs] by (simp add: evs(2))
  then have effects: "filter (\<lambda>e. is_call e \<or> is_write e) (effects_since w w') =
      concat (map (call_and_write start_date end_date) ?served)"
    by (simp add: effects_since_append[OF evs(1)] calls_writes_backtest_schedule)
  have stored: "files w' = store_responses end_date ?served (files w)"
    using backtests_loop_files[of fetch df start_date end_date "([], [])" w] run
    by (simp add: backtest_outcomes_def)
  have len: "length ?outs = length (sids_of df)"
    by (simp add: backtest_outcomes_def)
  have every: "\<exists>ok status_code jsond.
      map_of (rev ?served) sid = Some (ok, status_code, jsond) \<and>
      files w' (backtest_filename end_date sid) = Some (Json_Doc jsond)"
    if sid_in: "sid \<in> set (sids_of df)" for sid
  proof -
    obtain r where r: "map_of (rev ?served) sid = Some r"
      using map_of_rev_zip_served[OF sid_in len] by blast
    obtain ok code j where "r = (ok, code, j)" by (cases r)
    with r show ?thesis
      by (simp add: stored store_responses_lookup)
  qed
  have fl: "flist = failures (labelled_sids df) ?outs"
    using backtests_loop_lists[of fetch df start_date end_date "[]" "[]" w] run
    by (simp add: backtest_outcomes_def)
  have failed: "\<exists>jsond. files w' (backtest_filename end_date sid) = Some (Json_Doc jsond)"
    if failure: "(idx, sid, code) \<in> set flist" for idx sid code
  proof -
    have "sid \<in> set (sids_of df)"
      using failure unfolding fl by (blast dest: failures_subset labelled_sids_sid)
    from every[OF this] show ?thesis by blast
  qed
  from effects stored every fl failed show ?thesis by blast
qed


theorem batch_fetch_backtests_writes_every_response_witness:
  "batch_fetch_backtests demo_fetch_backtest demo_frame ''2024-01-01'' ''2024-12-31'' demo_world =
     (([''bt-a''], [(1, ''bad'', 404)]),
      snd (batch_fetch_backtests demo_fetch_backtest demo_frame ''2024-01-01'' ''2024-12-31''
             demo_world)) \<and>
   (\<exists>jsond. files (snd (batch_fetch_backtests demo_fetch_backtest demo_frame ''2024-01-01''
                          ''2024-12-31'' demo_world))
              (backtest_filename ''2024-12-31'' ''bad'') = Some (Json_Doc jsond))"
proof -
  let ?w' = "snd (batch_fetch_backtests demo_fetch_backtest demo_frame ''2024-01-01''
                    ''2024-12-31'' demo_world)"
  have run: "batch_fetch_backtests demo_fetch_backtest demo_frame ''2024-01-01'' ''2024-12-31''
               demo_world = (([''bt-a''], [(1, ''bad'', 404)]), ?w')"
    by (simp add: batch_fetch_backtests_def demo_fetch_backtest_def demo_frame_def demo_row_def
          demo_world_def Let_def prod_eq_iff)
  have "\<forall>(idx, sid, status_code) \<in> set [(1::int, ''bad'', 404::int)]. \<exists>jsond.
          files ?w' (backtest_filename ''2024-12-31'' sid) = Some (Json_Doc jsond)"
    using batch_fetch_backtests_writes_every_response[OF run] by blast
  then have "\<exists>jsond. files ?w' (backtest_filename ''2024-12-31'' ''bad'') = Some (Json_Doc jsond)"
    by simp
  with run show ?thesis by (rule conjI)
qed

text \<open>
  C7. \<open>batch_fetch_symphonies\<close> has no persistence side effect: for every input list
  the files after the run are the files before it and none of its effects is a file write;
  \<open>batch_fetch_backtests\<close>, in contrast, performs one write for each row.
\<close>

theorem batch_fetch_symphonies_no_persistence:
  "files (snd (batch_fetch_symphonies fetch symphony_sid_list w)) = files w \<and>
   filter is_write
     (effects_since w (snd (batch_fetch_symphonies fetch symphony_sid_list w))) = [] \<and>
   length (filter is_write
     (effects_since w (snd (batch_fetch_backtests fetch' df start_date end_date w)))) =
     length df"
proof -
  obtain evs where evs:
    "trace (snd (batch_fetch_symphonies fetch symphony_sid_list w)) = trace w @ evs"
    "filter (\<lambda>e. \<not> is_print e) evs = symphony_schedule (enumerate 0 symphony_sid_list)"
    using symphonies_loop_trace[of fetch 0 symphony_sid_list "([], [])" w]
    by (auto simp: batch_fetch_symphonies_def)
  have "filter is_write evs = filter is_write (symphony_schedule (enumerate 0 symphony_sid_list))"
    using filter_unprinted_writes[of evs] by (simp add: evs(2))
  then have no_writes: "filter is_write
     (effects_since w (snd (batch_fetch_symphonies fetch symphony_sid_list w))) = []"
    by (simp add: effects_since_append[OF evs(1)] writes_symphony_schedule)
  have same: "files (snd (batch_fetch_symphonies fetch symphony_sid_list w)) = files w"
    by (simp add: batch_fetch_symphonies_def symphonies_loop_files)
  let ?outs = "fetch_outcomes (\<lambda>n sid. fetch' n sid start_date end_date) (net w) (sids_of df)"
  obtain evs' where evs':
    "trace (snd (batch_fetch_backtests fetch' df start_date end_date w)) = trace w @ evs'"
    "filter (\<lambda>e. \<not> is_print e) evs' = backtest_schedule start_date end_date (zip df ?outs)"
    using backtests_loop_trace[of fetch' df start_date end_date "([], [])" w]
    by (auto simp: batch_fetch_backtests_def)
  have "filter is_write evs' =
        filter is_write (backtest_schedule start_date end_date (zip df ?outs))"
    using filter_unprinted_writes[of evs'] by (simp add: evs'(2))
  moreover have "length ?outs = length df"
    by (simp add: sids_of_def)
  ultimately have "length (filter is_write
     (effects_since w (snd (batch_fetch_backtests fetch' df start_date end_date w)))) =
     length df"
    by (simp add: effects_since_append[OF evs'(1)] length_writes_backtest_schedule)
  with same no_writes show ?thesis by blast
qed

text \<open>
  C2. The pause of \<open>batch_fetch_backtests\<close> goes by the index label of the row, not by
  its position: on a frame whose two rows carry the labels 19 and 20 there is no pause
  before the call at position 0 and there is one before the call at position 1.
\<close>

theorem batch_fetch_backtests_pauses_by_label:
  "effects_since demo_world
     (snd (batch_fetch_backtests demo_fetch_backtest shifted_frame ''2024-01-01'' ''2024-12-31''
             demo_world)) =
     [Fetch_Backtest ''a'' ''2024-01-01'' ''2024-12-31'',
      File_Write ''bin/BT-2024-12-31/a.json'' (Json_Doc ''bt-a''),
      Print_Sleeping 20 0,
      Sleep 1,
      Fetch_Backtest ''b'' ''2024-01-01'' ''2024-12-31'',
      File_Write ''bin/BT-2024-12-31/b.json'' (Json_Doc ''bt-b'')]"
  by (simp add: batch_fetch_backtests_def demo_fetch_backtest_def shifted_frame_def demo_row_def
        demo_world_def Let_def effects_since_def write_json_def backtest_filename_def)

text \<open>
  The pauses of \<open>batch_fetch_symphonies\<close> go by position: apart from the printed lines,
  its effects are the schedule of its input list, whatever the service answers. So do the
  pauses of \<open>batch_fetch_backtests\<close> on a frame with the default index.
\<close>

lemma symphonies_pacing:
  "filter (\<lambda>e. \<not> is_print e)
     (effects_since w (snd (batch_fetch_symphonies fetch symphony_sid_list w))) =
     symphony_schedule (enumerate 0 symphony_sid_list)"
proof -
  obtain evs where evs:
    "trace (snd (batch_fetch_symphonies fetch symphony_sid_list w)) = trace w @ evs"
    "filter (\<lambda>e. \<not> is_print e) evs = symphony_schedule (enumerate 0 symphony_sid_list)"
    using symphonies_loop_trace[of fetch 0 symphony_sid_list "([], [])" w]
    by (auto simp: batch_fetch_symphonies_def)
  then show ?thesis
    by (simp add: effects_since_append[OF evs(1)])
qed

lemma backtest_schedule_positions:
  "map fst df = map int [n..<n + length df] \<Longrightarrow>
   backtest_schedule sd ed (zip df outs) =
     concat (map (paced_call_and_write sd ed) (zip (enumerate n (sids_of df)) outs))"
proof (induction df arbitrary: n outs)
  case Nil
  show ?case by (simp add: backtest_schedule_def sids_of_def)
next
  case (Cons r rest)
  obtain idx row where r: "r = (idx, row)" by (cases r)
  have "[n..<n + length (r # rest)] = n # [Suc n..<Suc n + length rest]"
    by (simp add: upt_conv_Cons del: upt_Suc)
  with Cons.prems have idx: "idx = int n"
    and rest: "map fst rest = map int [Suc n..<Suc n + length rest]"
    by (simp_all add: r del: upt_Suc)
  note IH = Cons.IH[OF rest]
  show ?case
  proof (cases outs)
    case Nil
    then show ?thesis by (simp add: backtest_schedule_def)
  next
    case (Cons out outs')
    obtain ok code j where out: "out = (ok, code, j)" by (cases out)
    have pos: "int n mod 20 = 0 \<longleftrightarrow> n mod 20 = 0"
      by presburger
    have a: "backtest_schedule sd ed (zip (r # rest) outs) =
            (if n mod 20 = 0 then [Sleep 1] else []) @
            [Fetch_Backtest (symphony_sid row) sd ed,
             File_Write (backtest_filename ed (symphony_sid row)) (Json_Doc j)] @
            backtest_schedule sd ed (zip rest outs')"
      by (simp add: backtest_schedule_Cons r Cons out idx pos)
    have b: "concat (map (paced_call_and_write sd ed) (zip (enumerate n (sids_of (r # rest))) outs)) =
            (if n mod 20 = 0 then [Sleep 1] else []) @
            [Fetch_Backtest (symphony_sid row) sd ed,
             File_Write (backtest_filename ed (symphony_sid row)) (Json_Doc j)] @
            concat (map (paced_call_and_write sd ed) (zip (enumerate (Suc n) (sids_of rest)) outs'))"
      by (simp add: sids_of_def r Cons out call_and_write_def paced_call_and_write_def)
    show ?thesis
      by (simp only: a b IH[of outs'])
  qed
qed

lemma backtests_pacing_default_index:
  assumes "default_index df"
  shows "filter (\<lambda>e. \<not> is_print e)
           (effects_since w (snd (batch_fetch_backtests fetch df start_date end_date w))) =
         concat (map (paced_call_and_write start_date end_date)
           (zip (enumerate 0 (sids_of df))
                (backtest_outcomes fetch start_date end_date (net w) df)))"
proof -
  let ?outs = "backtest_outcomes fetch start_date end_date (net w) df"
  obtain evs where evs:
    "trace (snd (batch_fetch_backtests fetch df start_date end_date w)) = trace w @ evs"
    "filter (\<lambda>e. \<not> is_print e) evs = backtest_schedule start_date end_date (zip df ?outs)"
    using backtests_loop_trace[of fetch df start_date end_date "([], [])" w]
    by (auto simp: batch_fetch_backtests_def backtest_outcomes_def)
  have "map fst df = map int [0..<0 + length df]"
    using assms by (simp add: default_index_def)
  from backtest_schedule_positions[OF this, of start_date end_date ?outs] evs
  show ?thesis
    by (simp add: effects_since_append[OF evs(1)])
qed

section \<open>Result processor: skipping, keys and overwriting\<close>

lemma try_body_malformed:
  "extracted read_file get_backtest can_hash f = None \<Longrightarrow>
   \<exists>e. try_body read_file get_backtest can_hash f ds = (Some e, ds)"
  by (cases ds)
     (auto simp: extracted_def try_body_def setitem_def split: sum.splits prod.splits if_splits)

lemma try_body_extracted:
  "extracted read_file get_backtest can_hash f = Some x \<Longrightarrow>
   try_body read_file get_backtest can_hash f ds = (None, store_extracted ds x)"
  by (cases ds)
     (auto simp: extracted_def try_body_def setitem_def store_extracted_def
           split: sum.splits prod.splits if_splits)

lemma backtest_results_loop_files:
  "files (snd (backtest_results_loop rd ex hs index jsonfiles ds w)) = files w"
proof (induction jsonfiles arbitrary: index ds w)
  case Nil
  show ?case by simp
next
  case (Cons f rest)
  show ?case
    by (simp add: Cons.IH Let_def split: prod.splits option.splits)
qed

lemma backtest_results_loop_dicts:
  "fst (backtest_results_loop rd ex hs index jsonfiles ds w) =
     foldl store_extracted ds (List.map_filter (extracted (rd (files w)) ex hs) jsonfiles)"
proof (induction jsonfiles arbitrary: index ds w)
  case Nil
  show ?case by simp
next
  case (Cons f rest)
  show ?case
  proof (cases "extracted (rd (files w)) ex hs f")
    case None
    from try_body_malformed[OF None, of ds] obtain e where
      "try_body (rd (files w)) ex hs f ds = (Some e, ds)" by blast
    then show ?thesis
      by (simp add: Cons.IH Let_def None)
  next
    case (Some x)
    from try_body_extracted[OF Some, of ds] show ?thesis
      by (simp add: Cons.IH Let_def Some)
  qed
qed

lemma same_keys_store: "same_keys ds \<Longrightarrow> same_keys (store_extracted ds x)"
  by (cases ds; cases x)
     (simp add: same_keys_def store_extracted_def keys_def update_keys)

lemma same_keys_foldl: "same_keys ds \<Longrightarrow> same_keys (foldl store_extracted ds xs)"
  by (induction xs arbitrary: ds) (simp_all add: same_keys_store)

lemma keys_name_store:
  "set (keys (snd (snd (snd (store_extracted ds x))))) =
   insert (id_of x) (set (keys (snd (snd (snd ds)))))"
  by (cases ds; cases x) (auto simp: store_extracted_def keys_def id_of_def update_keys)

lemma keys_name_foldl:
  "set (keys (snd (snd (snd (foldl store_extracted ds xs))))) =
   set (map id_of xs) \<union> set (keys (snd (snd (snd ds))))"
  by (induction xs arbitrary: ds) (auto simp: keys_name_store)

lemma holds_store_same: "holds (store_extracted ds x) x"
  by (cases ds; cases x) (simp add: holds_def store_extracted_def update_conv')

lemma holds_store_other:
  "holds ds x \<Longrightarrow> id_of y \<noteq> id_of x \<Longrightarrow> holds (store_extracted ds y) x"
  by (cases ds; cases x; cases y) (simp add: holds_def store_extracted_def update_conv' id_of_def)

lemma holds_foldl:
  "holds ds x \<Longrightarrow> id_of x \<notin> set (map id_of ys) \<Longrightarrow> holds (foldl store_extracted ds ys) x"
proof (induction ys arbitrary: ds)
  case Nil
  then show ?case by simp
next
  case (Cons y ys)
  from Cons.prems have "id_of y \<noteq> id_of x" and rest: "id_of x \<notin> set (map id_of ys)"
    by auto
  with Cons.prems(1) have "holds (store_extracted ds y) x"
    by (simp add: holds_store_other)
  from Cons.IH[OF this rest] show ?case by simp
qed

lemma holds_last_write:
  "id_of x \<notin> set (map id_of ys) \<Longrightarrow> holds (foldl store_extracted ds (xs @ x # ys)) x"
  by (simp add: holds_foldl holds_store_same)

lemma is_fail_simps [simp]:
  "\<not> is_fail (Print_Sleeping i k)" "\<not> is_fail (Print_Processing p)" "\<not> is_fail (Print_Index n)"
  "is_fail (Print_Fail p)" "\<not> is_fail (Sleep s)" "\<not> is_fail (Fetch_Symphony sid)"
  "\<not> is_fail (Fetch_Backtest sid a b)" "\<not> is_fail (File_Write p c)"
  by (simp_all add: is_fail_def)

lemma backtest_results_loop_fails:
  "\<exists>evs. trace (snd (backtest_results_loop rd ex hs index jsonfiles ds w)) = trace w @ evs \<and>
         filter is_fail evs =
           map Print_Fail (filter (\<lambda>f. extracted (rd (files w)) ex hs f = None) jsonfiles)"
proof (induction jsonfiles arbitrary: index ds w)
  case Nil
  show ?case by simp
next
  case (Cons f rest)
  define w1 where "w1 = (if index mod 20 = 0 then emit (Print_Index index) w else w)"
  have f1: "files w1 = files w" by (simp add: w1_def)
  show ?case
  proof (cases "extracted (rd (files w)) ex hs f")
    case None
    from try_body_malformed[OF None, of ds] obtain e where
      e: "try_body (rd (files w)) ex hs f ds = (Some e, ds)" by blast
    define w2 where "w2 = emit (Print_Fail f) w1"
    have step: "backtest_results_loop rd ex hs index (f # rest) ds w =
                backtest_results_loop rd ex hs (Suc index) rest ds w2"
      using e by (simp add: Let_def w1_def[symmetric] f1 w2_def)
    have t2: "trace w2 = trace w @ (if index mod 20 = 0 then [Print_Index index] else []) @ [Print_Fail f]"
      by (simp add: w2_def w1_def)
    have f2: "files w2 = files w" by (simp add: w2_def f1)
    from Cons.IH[of "Suc index" ds w2] obtain evs where
      evs: "trace (snd (backtest_results_loop rd ex hs (Suc index) rest ds w2)) = trace w2 @ evs"
        "filter is_fail evs =
           map Print_Fail (filter (\<lambda>f. extracted (rd (files w)) ex hs f = None) rest)"
      unfolding f2 by blast
    show ?thesis
      unfolding step evs(1) t2
      by (rule exI[of _ "((if index mod 20 = 0 then [Print_Index index] else []) @ [Print_Fail f]) @ evs"])
         (simp add: evs(2) None)
  next
    case (Some x)
    have step: "backtest_results_loop rd ex hs index (f # rest) ds w =
                backtest_results_loop rd ex hs (Suc index) rest (store_extracted ds x) w1"
      using try_body_extracted[OF Some, of ds] by (simp add: Let_def w1_def[symmetric] f1)
    have t1: "trace w1 = trace w @ (if index mod 20 = 0 then [Print_Index index] else [])"
      by (simp add: w1_def)
    from Cons.IH[of "Suc index" "store_extracted ds x" w1] obtain evs where
      evs: "trace (snd (backtest_results_loop rd ex hs (Suc index) rest (store_extracted ds x) w1)) =
              trace w1 @ evs"
        "filter is_fail evs =
           map Print_Fail (filter (\<lambda>f. extracted (rd (files w)) ex hs f = None) rest)"
      unfolding f1 by blast
    show ?thesis
      unfolding step evs(1) t1
      by (rule exI[of _ "(if index mod 20 = 0 then [Print_Index index] else []) @ evs"])
         (simp add: evs(2) Some)
  qed
qed

lemma process_backtest_results_dicts:
  "fst (process_backtest_results rd ex hs jsonfiles w) =
     foldl store_extracted ([], [], [], [])
       (List.map_filter (extracted (rd (files w)) ex hs) jsonfiles)"
  by (simp add: process_backtest_results_def backtest_results_loop_dicts)

lemma keys_Nil [simp]: "keys [] = []"
  by (simp add: keys_def)

lemma same_keys_empty: "same_keys ([], [], [], [])"
  by (simp add: same_keys_def)

lemma keys_name_processed:
  "set (keys (snd (snd (snd (fst (process_backtest_results rd ex hs jsonfiles w)))))) =
   set (ids_in (rd (files w)) ex hs jsonfiles)"
  by (simp add: process_backtest_results_dicts keys_name_foldl ids_in_def)

text \<open>
  C8. For every list of files, the four dictionaries that \<open>process_backtest_results\<close>
  returns have the same keys (in the same order): a file that is read, extracted and
  stored adds its identifier to all four, a file for which any of these raises adds it to
  none; the keys are the identifiers of the files that parse.
\<close>

theorem process_backtest_results_same_keys:
  assumes "process_backtest_results read_file get_backtest can_hash jsonfiles w =
             ((dict_allocation, dict_return, dict_stats, dict_name), w')"
  shows "keys dict_allocation = keys dict_return \<and>
         keys dict_return = keys dict_stats \<and>
         keys dict_stats = keys dict_name \<and>
         set (keys dict_name) = set (ids_in (read_file (files w)) get_backtest can_hash jsonfiles)"
proof -
  have fst_run: "fst (process_backtest_results read_file get_backtest can_hash jsonfiles w) =
          (dict_allocation, dict_return, dict_stats, dict_name)"
    using assms by simp
  have "same_keys (dict_allocation, dict_return, dict_stats, dict_name)"
    using same_keys_foldl[OF same_keys_empty]
    by (simp add: fst_run[symmetric] process_backtest_results_dicts)
  moreover have "set (keys dict_name) = set (ids_in (read_file (files w)) get_backtest can_hash jsonfiles)"
    using keys_name_processed[of read_file get_backtest can_hash jsonfiles w] by (simp add: fst_run)
  ultimately show ?thesis by (simp add: same_keys_def)
qed

theorem process_backtest_results_same_keys_witness:
  "process_backtest_results demo_read_json demo_extract (\<lambda>k. True)
     [''one.json'', ''broken.json'', ''other.json''] demo_disk =
     (([(''k'', ''alloc-k1''), (''z'', ''alloc-z9'')], [(''k'', ''ret-k1''), (''z'', ''ret-z9'')],
       [(''k'', ''stats-k1''), (''z'', ''stats-z9'')], [(''k'', ''name-k1''), (''z'', ''name-z9'')]),
      snd (process_backtest_results demo_read_json demo_extract (\<lambda>k. True)
             [''one.json'', ''broken.json'', ''other.json''] demo_disk)) \<and>
   keys [(''k'', ''alloc-k1''), (''z'', ''alloc-z9'')] = keys [(''k'', ''name-k1''), (''z'', ''name-z9'')]"
proof -
  have run: "process_backtest_results demo_read_json demo_extract (\<lambda>k. True)
     [''one.json'', ''broken.json'', ''other.json''] demo_disk =
     (([(''k'', ''alloc-k1''), (''z'', ''alloc-z9'')], [(''k'', ''ret-k1''), (''z'', ''ret-z9'')],
       [(''k'', ''stats-k1''), (''z'', ''stats-z9'')], [(''k'', ''name-k1''), (''z'', ''name-z9'')]),
      snd (process_backtest_results demo_read_json demo_extract (\<lambda>k. True)
             [''one.json'', ''broken.json'', ''other.json''] demo_disk))"
    by (simp add: process_backtest_results_def try_body_def setitem_def demo_read_json_def
          demo_extract_def demo_disk_def Let_def prod_eq_iff)
  from process_backtest_results_same_keys[OF run]
  have "keys [(''k'', ''alloc-k1''), (''z'', ''alloc-z9'')] = keys [(''k'', ''name-k1''), (''z'', ''name-z9'')]"
    by simp
  with run show ?thesis by (rule conjI)
qed

lemma map_filter_append:
  "List.map_filter f (xs @ ys) = List.map_filter f xs @ List.map_filter f ys"
  by (simp add: List.map_filter_def)

text \<open>
  C10. \<open>process_backtest_results\<close> keys its dictionaries by the identifier extracted
  from the payload of each file: the keys are the identifiers that the files yield, and
  the entries at an identifier are the values of the last file that yields it, so a later
  file that embeds the same identifier as an earlier one replaces the earlier file's
  entries in all four dictionaries.
\<close>

theorem process_backtest_results_keyed_by_payload_id:
  assumes run: "process_backtest_results read_file get_backtest can_hash
                  (earlier @ jsonfile # later) w =
                  ((dict_allocation, dict_return, dict_stats, dict_name), w')"
    and payload: "extracted (read_file (files w)) get_backtest can_hash jsonfile =
                  Some (df_allocations, df_return, stats, symphony_name, id')"
    and last: "id' \<notin> set (ids_in (read_file (files w)) get_backtest can_hash later)"
  shows "set (keys dict_name) =
           set (ids_in (read_file (files w)) get_backtest can_hash (earlier @ jsonfile # later)) \<and>
         map_of dict_allocation id' = Some df_allocations \<and>
         map_of dict_return id' = Some df_return \<and>
         map_of dict_stats id' = Some stats \<and>
         map_of dict_name id' = Some symphony_name"
proof -
  let ?ex = "extracted (read_file (files w)) get_backtest can_hash"
  let ?x = "(df_allocations, df_return, stats, symphony_name, id')"
  have fst_run: "fst (process_backtest_results read_file get_backtest can_hash
                  (earlier @ jsonfile # later) w) =
                 (dict_allocation, dict_return, dict_stats, dict_name)"
    using run by simp
  have split: "List.map_filter ?ex (earlier @ jsonfile # later) =
               List.map_filter ?ex earlier @ ?x # List.map_filter ?ex later"
    by (simp add: map_filter_append payload)
  have "id_of ?x \<notin> set (map id_of (List.map_filter ?ex later))"
    using last by (simp add: ids_in_def id_of_def)
  from holds_last_write[OF this]
  have "holds (dict_allocation, dict_return, dict_stats, dict_name) ?x"
    by (simp add: fst_run[symmetric] process_backtest_results_dicts split)
  moreover have "set (keys dict_name) =
           set (ids_in (read_file (files w)) get_backtest can_hash (earlier @ jsonfile # later))"
    using keys_name_processed[of read_file get_backtest can_hash "earlier @ jsonfile # later" w]
    by (simp add: fst_run)
  ultimately show ?thesis by (simp add: holds_def)
qed

theorem process_backtest_results_keyed_by_payload_id_witness:
  "process_backtest_results demo_read_json demo_extract (\<lambda>k. True)
     ([''one.json''] @ ''two.json'' # []) demo_disk =
     (([(''k'', ''alloc-k2'')], [(''k'', ''ret-k2'')], [(''k'', ''stats-k2'')],
       [(''k'', ''name-k2'')]),
      snd (process_backtest_results demo_read_json demo_extract (\<lambda>k. True)
             ([''one.json''] @ ''two.json'' # []) demo_disk)) \<and>
   extracted (demo_read_json (files demo_disk)) demo_extract (\<lambda>k. True) ''one.json'' =
     Some (''alloc-k1'', ''ret-k1'', ''stats-k1'', ''name-k1'', ''k'') \<and>
   extracted (demo_read_json (files demo_disk)) demo_extract (\<lambda>k. True) ''two.json'' =
     Some (''alloc-k2'', ''ret-k2'', ''stats-k2'', ''name-k2'', ''k'') \<and>
   ''k'' \<notin> set (ids_in (demo_read_json (files demo_disk)) demo_extract (\<lambda>k. True) []) \<and>
   map_of [(''k'', ''stats-k2'')] ''k'' = Some ''stats-k2''"
proof -
  have run: "process_backtest_results demo_read_json demo_extract (\<lambda>k. True)
     ([''one.json''] @ ''two.json'' # []) demo_disk =
     (([(''k'', ''alloc-k2'')], [(''k'', ''ret-k2'')], [(''k'', ''stats-k2'')],
       [(''k'', ''name-k2'')]),
      snd (process_backtest_results demo_read_json demo_extract (\<lambda>k. True)
             ([''one.json''] @ ''two.json'' # []) demo_disk))"
    by (simp add: process_backtest_results_def try_body_def setitem_def demo_read_json_def
          demo_extract_def demo_disk_def Let_def prod_eq_iff)
  have one: "extracted (demo_read_json (files demo_disk)) demo_extract (\<lambda>k. True) ''one.json'' =
     Some (''alloc-k1'', ''ret-k1'', ''stats-k1'', ''name-k1'', ''k'')"
    by (simp add: extracted_def demo_read_json_def demo_extract_def demo_disk_def)
  have two: "extracted (demo_read_json (files demo_disk)) demo_extract (\<lambda>k. True) ''two.json'' =
     Some (''alloc-k2'', ''ret-k2'', ''stats-k2'', ''name-k2'', ''k'')"
    by (simp add: extracted_def demo_read_json_def demo_extract_def demo_disk_def)
  have last: "''k'' \<notin> set (ids_in (demo_read_json (files demo_disk)) demo_extract (\<lambda>k. True) [])"
    by (simp add: ids_in_def)
  have "map_of [(''k'', ''stats-k2'')] ''k'' = Some ''stats-k2''"
    using process_backtest_results_keyed_by_payload_id[OF run two last] by blast
  with run one two last show ?thesis by blast
qed

lemma in_map_filter:
  "x \<in> set (List.map_filter g xs) \<longleftrightarrow> (\<exists>f \<in> set xs. g f = Some x)"
  by (induction xs) (auto split: option.splits)

lemma skips_malformed_general:
  fixes get_backtest :: "'j \<Rightarrow> error + 'a \<times> 'r \<times> 's \<times> 'm \<times> 'k"
  assumes bad: "extracted (read_file (files w)) get_backtest can_hash malformed = None"
    and good: "\<forall>f \<in> set (before @ after).
                 extracted (read_file (files w)) get_backtest can_hash f \<noteq> None"
    and run: "process_backtest_results read_file get_backtest can_hash
                (before @ malformed # after) w = (ds, w')"
  shows "fst (process_backtest_results read_file get_backtest can_hash (before @ after) w) = ds \<and>
         Print_Fail malformed \<in> set (effects_since w w') \<and>
         same_keys ds \<and>
         set (keys (snd (snd (snd ds)))) =
           set (ids_in (read_file (files w)) get_backtest can_hash (before @ after)) \<and>
         (\<forall>f \<in> set (before @ after). \<exists>x.
            extracted (read_file (files w)) get_backtest can_hash f = Some x \<and>
            id_of x \<in> set (keys (snd (snd (snd ds))))) \<and>
         (\<forall>pre f post x.
            before @ after = pre @ f # post \<and>
            extracted (read_file (files w)) get_backtest can_hash f = Some x \<and>
            id_of x \<notin> set (ids_in (read_file (files w)) get_backtest can_hash post) \<longrightarrow>
            holds ds x) \<and>
         (\<forall>sid_of_file.
            (\<forall>f \<in> set (before @ after). \<forall>x.
               extracted (read_file (files w)) get_backtest can_hash f = Some x \<longrightarrow>
               id_of x = sid_of_file f) \<and>
            sid_of_file malformed \<notin> sid_of_file ` set (before @ after) \<longrightarrow>
            set (keys (snd (snd (snd ds)))) =
              sid_of_file ` set (before @ malformed # after) - {sid_of_file malformed})"
proof -
  let ?ex = "extracted (read_file (files w)) get_backtest can_hash"
  let ?ids = "ids_in (read_file (files w)) get_backtest can_hash"
  have same_list: "List.map_filter ?ex (before @ malformed # after) =
                   List.map_filter ?ex (before @ after)"
    by (simp add: map_filter_append bad)
  have ds: "ds = foldl store_extracted ([], [], [], []) (List.map_filter ?ex (before @ after))"
    using run process_backtest_results_dicts[of read_file get_backtest can_hash
                "before @ malformed # after" w]
    by (simp add: same_list)
  have skipped: "fst (process_backtest_results read_file get_backtest can_hash (before @ after) w) = ds"
    by (simp add: ds process_backtest_results_dicts)
  obtain evs where evs: "trace w' = trace w @ evs"
    "filter is_fail evs = map Print_Fail (filter (\<lambda>f. ?ex f = None) (before @ malformed # after))"
    using backtest_results_loop_fails[of read_file get_backtest can_hash 0
            "before @ malformed # after" "([], [], [], [])" w] run
    by (auto simp: process_backtest_results_def)
  have "Print_Fail malformed \<in> set (filter is_fail evs)"
    unfolding evs(2) using bad by simp
  then have logged: "Print_Fail malformed \<in> set (effects_since w w')"
    by (simp add: effects_since_append[OF evs(1)])
  have sk: "same_keys ds"
    unfolding ds by (rule same_keys_foldl[OF same_keys_empty])
  have ks: "set (keys (snd (snd (snd ds)))) = set (?ids (before @ after))"
    by (simp add: ds keys_name_foldl ids_in_def)
  have present: "\<exists>x. ?ex f = Some x \<and> id_of x \<in> set (keys (snd (snd (snd ds))))"
    if f: "f \<in> set (before @ after)" for f
  proof -
    from good f obtain x where x: "?ex f = Some x" by blast
    then have "x \<in> set (List.map_filter ?ex (before @ after))"
      using f unfolding in_map_filter by blast
    then have "id_of x \<in> set (?ids (before @ after))"
      by (simp add: ids_in_def)
    with x show ?thesis by (simp add: ks)
  qed
  have correct: "holds ds x"
    if decomp: "before @ after = pre @ f # post" and x: "?ex f = Some x"
      and later: "id_of x \<notin> set (?ids post)" for pre f post x
  proof -
    have parts: "List.map_filter ?ex (before @ after) =
          List.map_filter ?ex pre @ x # List.map_filter ?ex post"
      by (simp add: decomp map_filter_append x)
    have "id_of x \<notin> set (map id_of (List.map_filter ?ex post))"
      using later by (simp add: ids_in_def)
    then show ?thesis
      unfolding ds parts by (rule holds_last_write)
  qed
  have by_name: "set (keys (snd (snd (snd ds)))) =
                 sid_of_file ` set (before @ malformed # after) - {sid_of_file malformed}"
    if agree: "\<forall>f \<in> set (before @ after). \<forall>x. ?ex f = Some x \<longrightarrow> id_of x = sid_of_file f"
      and other: "sid_of_file malformed \<notin> sid_of_file ` set (before @ after)"
    for sid_of_file :: "path \<Rightarrow> 'k"
  proof -
    have "set (?ids (before @ after)) = sid_of_file ` set (before @ after)"
    proof (intro set_eqI iffI)
      fix k assume "k \<in> set (?ids (before @ after))"
      then obtain x where "x \<in> set (List.map_filter ?ex (before @ after))" "k = id_of x"
        unfolding ids_in_def by auto
      then obtain f x where fx: "f \<in> set (before @ after)" "?ex f = Some x" "k = id_of x"
        unfolding in_map_filter by blast
      with agree have "k = sid_of_file f" by blast
      from this fx(1) show "k \<in> sid_of_file ` set (before @ after)" by (rule image_eqI)
    next
      fix k assume "k \<in> sid_of_file ` set (before @ after)"
      then obtain f where f: "f \<in> set (before @ after)" "k = sid_of_file f" by blast
      from present[OF f(1)] obtain x where x: "?ex f = Some x"
        "id_of x \<in> set (keys (snd (snd (snd ds))))" by blast
      from agree f(1) x(1) have "id_of x = sid_of_file f" by blast
      with x(2) f(2) show "k \<in> set (?ids (before @ after))" by (simp add: ks[symmetric])
    qed
    moreover have "sid_of_file ` set (before @ malformed # after) =
                   insert (sid_of_file malformed) (sid_of_file ` set (before @ after))"
      by auto
    ultimately show ?thesis
      using other by (simp add: ks)
  qed
  show ?thesis
  proof (intro conjI ballI allI impI)
    show "fst (process_backtest_results read_file get_backtest can_hash (before @ after) w) = ds"
      by (rule skipped)
    show "Print_Fail malformed \<in> set (effects_since w w')"
      by (rule logged)
    show "same_keys ds"
      by (rule sk)
    show "set (keys (snd (snd (snd ds)))) = set (?ids (before @ after))"
      by (rule ks)
  next
    fix f assume "f \<in> set (before @ after)"
    then show "\<exists>x. ?ex f = Some x \<and> id_of x \<in> set (keys (snd (snd (snd ds))))"
      by (rule present)
  next
    fix pre f post x
    assume "before @ after = pre @ f # post \<and> ?ex f = Some x \<and> id_of x \<notin> set (?ids post)"
    then show "holds ds x"
      using correct[of pre f post x] by simp
  next
    fix sid_of_file :: "path \<Rightarrow> 'k"
    assume "(\<forall>f \<in> set (before @ after). \<forall>x. ?ex f = Some x \<longrightarrow> id_of x = sid_of_file f) \<and>
            sid_of_file malformed \<notin> sid_of_file ` set (before @ after)"
    then show "set (keys (snd (snd (snd ds)))) =
                 sid_of_file ` set (before @ malformed # after) - {sid_of_file malformed}"
      using by_name[of sid_of_file] by simp
  qed
qed

text \<open>
  C4. For every list of files of which exactly one is malformed (its read, its extraction
  or the storing of its identifier raises), \<open>process_backtest_results\<close> does not
  abort: it prints the line for the skipped file and returns the dictionaries it returns
  for the list without that file. Their keys are the identifiers of the other files, each
  of which is present, and the entries at an identifier are the values extracted from the
  last file that yields it. Where the identifiers in the payloads are the identifiers the
  files are named after, the keys are those of all the files but the malformed one.
\<close>

theorem process_backtest_results_skips_malformed:
  fixes get_backtest :: "'j \<Rightarrow> error + 'a \<times> 'r \<times> 's \<times> 'm \<times> 'k"
  assumes bad: "extracted (read_file (files w)) get_backtest can_hash malformed = None"
    and good: "\<forall>f \<in> set (before @ after).
                 extracted (read_file (files w)) get_backtest can_hash f \<noteq> None"
    and run: "process_backtest_results read_file get_backtest can_hash
                (before @ malformed # after) w =
                ((dict_allocation, dict_return, dict_stats, dict_name), w')"
  shows "fst (process_backtest_results read_file get_backtest can_hash (before @ after) w) =
           (dict_allocation, dict_return, dict_stats, dict_name) \<and>
         Print_Fail malformed \<in> set (effects_since w w') \<and>
         keys dict_allocation = keys dict_name \<and>
         keys dict_return = keys dict_name \<and>
         keys dict_stats = keys dict_name \<and>
         set (keys dict_name) =
           set (ids_in (read_file (files w)) get_backtest can_hash (before @ after)) \<and>
         (\<forall>f \<in> set (before @ after). \<exists>x.
            extracted (read_file (files w)) get_backtest can_hash f = Some x \<and>
            id_of x \<in> set (keys dict_name)) \<and>
         (\<forall>pre f post x.
            before @ after = pre @ f # post \<and>
            extracted (read_file (files w)) get_backtest can_hash f = Some x \<and>
            id_of x \<notin> set (ids_in (read_file (files w)) get_backtest can_hash post) \<longrightarrow>
            holds (dict_allocation, dict_return, dict_stats, dict_name) x) \<and>
         (\<forall>sid_of_file.
            (\<forall>f \<in> set (before @ after). \<forall>x.
               extracted (read_file (files w)) get_backtest can_hash f = Some x \<longrightarrow>
               id_of x = sid_of_file f) \<and>
            sid_of_file malformed \<notin> sid_of_file ` set (before @ after) \<longrightarrow>
            set (keys dict_name) =
              sid_of_file ` set (before @ malformed # after) - {sid_of_file malformed})"
proof -
  let ?ds = "(dict_allocation, dict_return, dict_stats, dict_name)"
  note general = skips_malformed_general[OF bad good run]
  have name: "snd (snd (snd ?ds)) = dict_name" by simp
  from general have skipped:
    "fst (process_backtest_results read_file get_backtest can_hash (before @ after) w) = ?ds"
    by (rule conjunct1)
  from general have logged: "Print_Fail malformed \<in> set (effects_since w w')"
    by (rule conjunct1[OF conjunct2])
  from general have "same_keys ?ds"
    by (rule conjunct1[OF conjunct2[OF conjunct2]])
  then have ks: "keys dict_allocation = keys dict_name" "keys dict_return = keys dict_name"
    "keys dict_stats = keys dict_name"
    by (simp_all add: same_keys_def)
  from general have rest:
    "set (keys (snd (snd (snd ?ds)))) =
       set (ids_in (read_file (files w)) get_backtest can_hash (before @ after)) \<and>
     (\<forall>f \<in> set (before @ after). \<exists>x.
        extracted (read_file (files w)) get_backtest can_hash f = Some x \<and>
        id_of x \<in> set (keys (snd (snd (snd ?ds))))) \<and>
     (\<forall>pre f post x.
        before @ after = pre @ f # post \<and>
        extracted (read_file (files w)) get_backtest can_hash f = Some x \<and>
        id_of x \<notin> set (ids_in (read_file (files w)) get_backtest can_hash post) \<longrightarrow>
        holds ?ds x) \<and>
     (\<forall>sid_of_file.
        (\<forall>f \<in> set (before @ after). \<forall>x.
           extracted (read_file (files w)) get_backtest can_hash f = Some x \<longrightarrow>
           id_of x = sid_of_file f) \<and>
        sid_of_file malformed \<notin> sid_of_file ` set (before @ after) \<longrightarrow>
        set (keys (snd (snd (snd ?ds)))) =
          sid_of_file ` set (before @ malformed # after) - {sid_of_file malformed})"
    by (rule conjunct2[OF conjunct2[OF conjunct2]])
  note rest' = rest[unfolded name]
  note present = rest'[THEN conjunct1]
    and entries = rest'[THEN conjunct2, THEN conjunct1]
    and correct = rest'[THEN conjunct2, THEN conjunct2, THEN conjunct1]
    and by_name = rest'[THEN conjunct2, THEN conjunct2, THEN conjunct2]
  from skipped logged ks present entries correct by_name show ?thesis
    by (intro conjI)
qed

theorem process_backtest_results_skips_malformed_witness:
  "extracted (demo_read_json (files demo_disk)) demo_extract (\<lambda>k. True) ''broken.json'' = None \<and>
   extracted (demo_read_json (files demo_disk)) demo_extract (\<lambda>k. True) ''one.json'' \<noteq> None \<and>
   extracted (demo_read_json (files demo_disk)) demo_extract (\<lambda>k. True) ''other.json'' \<noteq> None \<and>
   process_backtest_results demo_read_json demo_extract (\<lambda>k. True)
     ([''one.json''] @ ''broken.json'' # [''other.json'']) demo_disk =
     (([(''k'', ''alloc-k1''), (''z'', ''alloc-z9'')], [(''k'', ''ret-k1''), (''z'', ''ret-z9'')],
       [(''k'', ''stats-k1''), (''z'', ''stats-z9'')], [(''k'', ''name-k1''), (''z'', ''name-z9'')]),
      snd (process_backtest_results demo_read_json demo_extract (\<lambda>k. True)
             ([''one.json''] @ ''broken.json'' # [''other.json'']) demo_disk)) \<and>
   fst (process_backtest_results demo_read_json demo_extract (\<lambda>k. True)
          ([''one.json''] @ [''other.json'']) demo_disk) =
     ([(''k'', ''alloc-k1''), (''z'', ''alloc-z9'')], [(''k'', ''ret-k1''), (''z'', ''ret-z9'')],
      [(''k'', ''stats-k1''), (''z'', ''stats-z9'')], [(''k'', ''name-k1''), (''z'', ''name-z9'')]) \<and>
   Print_Fail ''broken.json'' \<in>
     set (effects_since demo_disk
            (snd (process_backtest_results demo_read_json demo_extract (\<lambda>k. True)
                    ([''one.json''] @ ''broken.json'' # [''other.json'']) demo_disk)))"
proof -
  let ?ex = "extracted (demo_read_json (files demo_disk)) demo_extract (\<lambda>k. True)"
  have bad: "?ex ''broken.json'' = None"
    by (simp add: extracted_def demo_read_json_def demo_extract_def demo_disk_def)
  have one: "?ex ''one.json'' \<noteq> None"
    by (simp add: extracted_def demo_read_json_def demo_extract_def demo_disk_def)
  have other: "?ex ''other.json'' \<noteq> None"
    by (simp add: extracted_def demo_read_json_def demo_extract_def demo_disk_def)
  have good: "\<forall>f \<in> set ([''one.json''] @ [''other.json'']). ?ex f \<noteq> None"
    using one other by simp
  have run: "process_backtest_results demo_read_json demo_extract (\<lambda>k. True)
     ([''one.json''] @ ''broken.json'' # [''other.json'']) demo_disk =
     (([(''k'', ''alloc-k1''), (''z'', ''alloc-z9'')], [(''k'', ''ret-k1''), (''z'', ''ret-z9'')],
       [(''k'', ''stats-k1''), (''z'', ''stats-z9'')], [(''k'', ''name-k1''), (''z'', ''name-z9'')]),
      snd (process_backtest_results demo_read_json demo_extract (\<lambda>k. True)
             ([''one.json''] @ ''broken.json'' # [''other.json'']) demo_disk))"
    by (simp add: process_backtest_results_def try_body_def setitem_def demo_read_json_def
          demo_extract_def demo_disk_def Let_def prod_eq_iff)
  note all = process_backtest_results_skips_malformed[OF bad good run]
  from all have skipped: "fst (process_backtest_results demo_read_json demo_extract (\<lambda>k. True)
          ([''one.json''] @ [''other.json'']) demo_disk) =
     ([(''k'', ''alloc-k1''), (''z'', ''alloc-z9'')], [(''k'', ''ret-k1''), (''z'', ''ret-z9'')],
      [(''k'', ''stats-k1''), (''z'', ''stats-z9'')], [(''k'', ''name-k1''), (''z'', ''name-z9'')])"
    by (rule conjunct1)
  from all have logged: "Print_Fail ''broken.json'' \<in>
     set (effects_since demo_disk
            (snd (process_backtest_results demo_read_json demo_extract (\<lambda>k. True)
                    ([''one.json''] @ ''broken.json'' # [''other.json'']) demo_disk)))"
    by (rule conjunct1[OF conjunct2])
  from bad one other run skipped logged show ?thesis
    by (intro conjI)
qed

section \<open>Merging metric mappings\<close>

lemma map_of_dict_update:
  "map_of (dict_update d other) = map_of d ++ map_of (rev other)"
  unfolding dict_update_def
proof (induction other arbitrary: d)
  case Nil
  show ?case by simp
next
  case (Cons kv other)
  obtain k v where kv: "kv = (k, v)" by (cases kv)
  show ?case
    by (simp add: kv Cons.IH update_conv' map_add_upd_left fun_eq_iff map_add_def split: option.splits)
qed

lemma keys_dom: "set (keys d) = dom (map_of d)"
  by (simp add: keys_def dom_map_of_conv_image_fst)

lemma keys_dict_update:
  "set (keys (dict_update d other)) = set (keys d) \<union> set (keys other)"
  by (simp add: keys_dom map_of_dict_update dom_map_of_conv_image_fst Un_commute)

lemma distinct_dict_update:
  "distinct (keys d) \<Longrightarrow> distinct (keys (dict_update d other))"
  unfolding dict_update_def keys_def
proof (induction other arbitrary: d)
  case Nil
  then show ?case by simp
next
  case (Cons kv other)
  obtain k v where kv: "kv = (k, v)" by (cases kv)
  from Cons.prems have "distinct (map fst (AList.update k v d))"
    by (rule distinct_update)
  from Cons.IH[OF this] show ?case by (simp add: kv)
qed

lemma map_of_rev_distinct:
  assumes "distinct (map fst xs)"
  shows "map_of (rev xs) = map_of xs"
proof (rule ext)
  fix k
  have d: "distinct (map fst (rev xs))"
    using assms by (simp add: rev_map[symmetric])
  show "map_of (rev xs) k = map_of xs k"
  proof (cases "map_of xs k")
    case None
    then have "k \<notin> fst ` set xs" by (simp add: map_of_eq_None_iff)
    then have "map_of (rev xs) k = None" by (simp add: map_of_eq_None_iff)
    with None show ?thesis by simp
  next
    case (Some v)
    then have "(k, v) \<in> set (rev xs)" by (simp add: map_of_SomeD)
    then have "map_of (rev xs) k = Some v" using map_of_eq_Some_iff[OF d] by blast
    with Some show ?thesis by simp
  qed
qed

text \<open>
  C5. For every pair of metric mappings \<open>d1\<close> and \<open>d2\<close> (dictionaries, so with
  distinct keys), \<open>merge_dicts d1 d2\<close> is a dictionary whose key set is the union of
  the two key sets, whose value at every key of \<open>d2\<close> (in particular at every key present
  in both) is the value of \<open>d2\<close>, and whose value at every key of \<open>d1\<close> that \<open>d2\<close>
  lacks is the value of \<open>d1\<close>.
\<close>

theorem merge_dicts_second_wins:
  assumes "distinct (keys d1)" and "distinct (keys d2)"
  shows "distinct (keys (merge_dicts d1 d2)) \<and>
         set (keys (merge_dicts d1 d2)) = set (keys d1) \<union> set (keys d2) \<and>
         (\<forall>k \<in> set (keys d2). map_of (merge_dicts d1 d2) k = map_of d2 k) \<and>
         (\<forall>k \<in> set (keys d1) - set (keys d2). map_of (merge_dicts d1 d2) k = map_of d1 k)"
proof -
  have m: "map_of (merge_dicts d1 d2) = map_of d1 ++ map_of d2"
    using assms(2) by (simp add: merge_dicts_def map_of_dict_update map_of_rev_distinct keys_def)
  have "distinct (keys (merge_dicts d1 d2))"
    using assms(1) by (simp add: merge_dicts_def distinct_dict_update)
  moreover have "set (keys (merge_dicts d1 d2)) = set (keys d1) \<union> set (keys d2)"
    by (simp add: merge_dicts_def keys_dict_update)
  moreover have "map_of (merge_dicts d1 d2) k = map_of d2 k" if "k \<in> set (keys d2)" for k
  proof -
    from that obtain v where "map_of d2 k = Some v"
      unfolding keys_dom by blast
    then show ?thesis by (simp add: m map_add_def)
  qed
  moreover have "map_of (merge_dicts d1 d2) k = map_of d1 k"
    if "k \<in> set (keys d1) - set (keys d2)" for k
  proof -
    from that have "map_of d2 k = None"
      unfolding keys_dom by blast
    then show ?thesis by (simp add: m map_add_def)
  qed
  ultimately show ?thesis by blast
qed

theorem merge_dicts_second_wins_witness:
  "distinct (keys [(''cagr'', 1::int), (''sharpe'', 2)]) \<and>
   distinct (keys [(''sharpe'', 3::int), (''sortino'', 4)]) \<and>
   merge_dicts [(''cagr'', 1::int), (''sharpe'', 2)] [(''sharpe'', 3), (''sortino'', 4)] =
     [(''cagr'', 1), (''sharpe'', 3), (''sortino'', 4)] \<and>
   map_of (merge_dicts [(''cagr'', 1::int), (''sharpe'', 2)] [(''sharpe'', 3), (''sortino'', 4)])
     ''sharpe'' = map_of [(''sharpe'', 3::int), (''sortino'', 4)] ''sharpe'' \<and>
   map_of (merge_dicts [(''cagr'', 1::int), (''sharpe'', 2)] [(''sharpe'', 3), (''sortino'', 4)])
     ''cagr'' = map_of [(''cagr'', 1::int), (''sharpe'', 2)] ''cagr''"
proof -
  let ?d1 = "[(''cagr'', 1::int), (''sharpe'', 2)]"
  let ?d2 = "[(''sharpe'', 3::int), (''sortino'', 4)]"
  have d1: "distinct (keys ?d1)" by (simp add: keys_def)
  have d2: "distinct (keys ?d2)" by (simp add: keys_def)
  have run: "merge_dicts ?d1 ?d2 = [(''cagr'', 1), (''sharpe'', 3), (''sortino'', 4)]"
    by (simp add: merge_dicts_def dict_update_def)
  note all = merge_dicts_second_wins[OF d1 d2]
  have in2: "''sharpe'' \<in> set (keys ?d2)" by (simp add: keys_def)
  have in1: "''cagr'' \<in> set (keys ?d1) - set (keys ?d2)" by (simp add: keys_def)
  from all in2 have both: "map_of (merge_dicts ?d1 ?d2) ''sharpe'' = map_of ?d2 ''sharpe''"
    by blast
  from all in1 have only1: "map_of (merge_dicts ?d1 ?d2) ''cagr'' = map_of ?d1 ''cagr''"
    by blast
  from d1 d2 run both only1 show ?thesis by (intro conjI)
qed

section \<open>Source extractor: reruns\<close>

lemma discord_loop_files:
  "files (snd (discord_loop get jsonfiles d w)) = files w"
proof (induction jsonfiles arbitrary: d w)
  case Nil
  show ?case by simp
next
  case (Cons f rest)
  show ?case
    by (simp add: Cons.IH Let_def split: sum.splits)
qed

lemma discord_loop_reads_files_only:
  "files w2 = files w1 \<Longrightarrow>
   fst (discord_loop get jsonfiles d w2) = fst (discord_loop get jsonfiles d w1)"
proof (induction jsonfiles arbitrary: d w1 w2)
  case Nil
  show ?case by simp
next
  case (Cons f rest)
  have same: "files (emit (Print_Processing f) w2) = files (emit (Print_Processing f) w1)"
    using Cons.prems by simp
  show ?case
  proof (cases "get (files w1) f")
    case (Inl e)
    then show ?thesis using Cons.prems by (simp add: Let_def)
  next
    case (Inr found)
    have "fst (discord_loop get (f # rest) d w2) =
          fst (discord_loop get rest (dict_update d found) (emit (Print_Processing f) w2))"
      using Inr Cons.prems by (simp add: Let_def)
    also have "\<dots> = fst (discord_loop get rest (dict_update d found) (emit (Print_Processing f) w1))"
      by (rule Cons.IH[OF same])
    also have "\<dots> = fst (discord_loop get (f # rest) d w1)"
      using Inr by (simp add: Let_def)
    finally show ?thesis .
  qed
qed

lemma process_discord_exports_files:
  "files (snd (process_discord_exports ls isf get dirpath w)) = files w"
  by (simp add: process_discord_exports_def discord_loop_files split: sum.splits)

lemma process_discord_exports_reads_files_only:
  assumes "files w2 = files w1"
  shows "fst (process_discord_exports ls isf get dirpath w2) =
         fst (process_discord_exports ls isf get dirpath w1)"
proof (cases "ls (files w1) dirpath")
  case (Inl e)
  then show ?thesis using assms by (simp add: process_discord_exports_def)
next
  case (Inr names)
  let ?jsonfiles = "[join dirpath f. f \<leftarrow> names, isf (files w1) (join dirpath f)]"
  have "fst (process_discord_exports ls isf get dirpath w2) = fst (discord_loop get ?jsonfiles [] w2)"
    using Inr assms by (simp add: process_discord_exports_def)
  also have "\<dots> = fst (discord_loop get ?jsonfiles [] w1)"
    by (rule discord_loop_reads_files_only[OF assms])
  also have "\<dots> = fst (process_discord_exports ls isf get dirpath w1)"
    using Inr by (simp add: process_discord_exports_def)
  finally show ?thesis .
qed

text \<open>
  C6. \<open>process_discord_exports\<close> reads nothing but the files of the world and leaves
  them as they are, so its output (the mapping it returns, or the exception that ends it)
  is the same in any two worlds with the same files; in particular a second run over the
  same directory, started where the first run ended, returns what the first run returned.
\<close>

theorem process_discord_exports_idempotent:
  assumes "files w2 = files w1"
  shows "fst (process_discord_exports ls isf get dirpath w2) =
           fst (process_discord_exports ls isf get dirpath w1) \<and>
         files (snd (process_discord_exports ls isf get dirpath w1)) = files w1 \<and>
         fst (process_discord_exports ls isf get dirpath
                (snd (process_discord_exports ls isf get dirpath w1))) =
           fst (process_discord_exports ls isf get dirpath w1)"
proof (intro conjI)
  show "fst (process_discord_exports ls isf get dirpath w2) =
        fst (process_discord_exports ls isf get dirpath w1)"
    using assms by (rule process_discord_exports_reads_files_only)
  show same: "files (snd (process_discord_exports ls isf get dirpath w1)) = files w1"
    by (rule process_discord_exports_files)
  show "fst (process_discord_exports ls isf get dirpath
                (snd (process_discord_exports ls isf get dirpath w1))) =
        fst (process_discord_exports ls isf get dirpath w1)"
    using same by (rule process_discord_exports_reads_files_only)
qed

theorem process_discord_exports_idempotent_witness:
  "files (snd (process_discord_exports demo_listdir demo_isfile demo_get_symphonies
                 demo_dirpath demo_archive)) = files demo_archive \<and>
   fst (process_discord_exports demo_listdir demo_isfile demo_get_symphonies demo_dirpath
          demo_archive) = Inr [(''s1'', ''title-s1-new'')] \<and>
   fst (process_discord_exports demo_listdir demo_isfile demo_get_symphonies demo_dirpath
          (snd (process_discord_exports demo_listdir demo_isfile demo_get_symphonies
                  demo_dirpath demo_archive))) = Inr [(''s1'', ''title-s1-new'')]"
proof -
  let ?run = "process_discord_exports demo_listdir demo_isfile demo_get_symphonies demo_dirpath"
  have first: "fst (?run demo_archive) = Inr [(''s1'', ''title-s1-new'')]"
    by (simp add: process_discord_exports_def demo_listdir_def demo_isfile_def
          demo_get_symphonies_def demo_dirpath_def demo_archive_def join_def dict_update_def
          Let_def)
  have same: "files (snd (?run demo_archive)) = files demo_archive"
    by (rule process_discord_exports_files)
  from process_discord_exports_idempotent[OF same, of demo_listdir demo_isfile
         demo_get_symphonies demo_dirpath]
  have "fst (?run (snd (?run demo_archive))) = fst (?run demo_archive)"
    by (rule conjunct1)
  then have again: "fst (?run (snd (?run demo_archive))) = Inr [(''s1'', ''title-s1-new'')]"
    by (simp only: first)
  from same first again show ?thesis by (intro conjI)
qed

section \<open>Main workflow: the OOS file\<close>

lemma table_writes_Nil [simp]: "table_writes [] = []"
  by (simp add: table_writes_def)

lemma table_writes_append [simp]:
  "table_writes (evs @ evs') = table_writes evs @ table_writes evs'"
  by (simp add: table_writes_def)

lemma table_writes_Cons_simps [simp]:
  "table_writes (File_Write p (Json_Doc j) # evs) = table_writes evs"
  "table_writes (File_Write p (Symphony_Table t) # evs) = (p, Symphony_Table t) # table_writes evs"
  "table_writes (File_Write p (Data_Table d) # evs) = (p, Data_Table d) # table_writes evs"
  "table_writes (Print_Sleeping i k # evs) = table_writes evs"
  "table_writes (Sleep s # evs) = table_writes evs"
  "table_writes (Fetch_Symphony sid # evs) = table_writes evs"
  "table_writes (Fetch_Backtest sid a b # evs) = table_writes evs"
  "table_writes (Print_Processing p # evs) = table_writes evs"
  "table_writes (Print_Index n # evs) = table_writes evs"
  "table_writes (Print_Fail p # evs) = table_writes evs"
  by (simp_all add: table_writes_def)

lemma table_writes_unprinted:
  "table_writes (filter (\<lambda>e. \<not> is_print e) evs) = table_writes evs"
proof (induction evs)
  case Nil
  show ?case by simp
next
  case (Cons e evs)
  show ?case
  proof (cases e)
    case (File_Write p c)
    then show ?thesis using Cons.IH by (cases c) simp_all
  qed (simp_all add: Cons.IH)
qed

lemma table_writes_symphony_schedule: "table_writes (symphony_schedule keyed) = []"
  by (induction keyed) (auto simp: symphony_schedule_def)

lemma table_writes_backtest_schedule: "table_writes (backtest_schedule sd ed served) = []"
  by (induction served) (auto simp: backtest_schedule_def)

lemma batch_fetch_symphonies_tables:
  "\<exists>evs. trace (snd (batch_fetch_symphonies fetch sids w)) = trace w @ evs \<and>
         table_writes evs = []"
proof -
  obtain evs where evs:
    "trace (snd (batch_fetch_symphonies fetch sids w)) = trace w @ evs"
    "filter (\<lambda>e. \<not> is_print e) evs = symphony_schedule (enumerate 0 sids)"
    using symphonies_loop_trace[of fetch 0 sids "([], [])" w]
    by (auto simp: batch_fetch_symphonies_def)
  have "table_writes evs = []"
    using table_writes_unprinted[of evs] by (simp add: evs(2) table_writes_symphony_schedule)
  with evs(1) show ?thesis by blast
qed

lemma batch_fetch_backtests_tables:
  "\<exists>evs. trace (snd (batch_fetch_backtests fetch df sd ed w)) = trace w @ evs \<and>
         table_writes evs = []"
proof -
  obtain evs served where evs:
    "trace (snd (batch_fetch_backtests fetch df sd ed w)) = trace w @ evs"
    "filter (\<lambda>e. \<not> is_print e) evs = backtest_schedule sd ed served"
    using backtests_loop_trace[of fetch df sd ed "([], [])" w]
    by (auto simp: batch_fetch_backtests_def)
  have "table_writes evs = []"
    using table_writes_unprinted[of evs] by (simp add: evs(2) table_writes_backtest_schedule)
  with evs(1) show ?thesis by blast
qed

lemma backtest_results_loop_tables:
  "\<exists>evs. trace (snd (backtest_results_loop rd ex hs index jsonfiles ds w)) = trace w @ evs \<and>
         table_writes evs = []"
proof (induction jsonfiles arbitrary: index ds w)
  case Nil
  show ?case by simp
next
  case (Cons f rest)
  define w1 where "w1 = (if index mod 20 = 0 then emit (Print_Index index) w else w)"
  obtain raised ds1 where tb: "try_body (rd (files w1)) ex hs f ds = (raised, ds1)"
    by (cases "try_body (rd (files w1)) ex hs f ds")
  define w2 where "w2 = (case raised of None \<Rightarrow> w1 | Some e \<Rightarrow> emit (Print_Fail f) w1)"
  have step: "backtest_results_loop rd ex hs index (f # rest) ds w =
              backtest_results_loop rd ex hs (Suc index) rest ds1 w2"
    using tb by (simp add: Let_def w1_def[symmetric] w2_def)
  have "\<exists>evs0. trace w2 = trace w @ evs0 \<and> table_writes evs0 = []"
    by (cases raised) (auto simp: w2_def w1_def)
  then obtain evs0 where evs0: "trace w2 = trace w @ evs0" "table_writes evs0 = []" by blast
  from Cons.IH[of "Suc index" ds1 w2] obtain evs where
    evs: "trace (snd (backtest_results_loop rd ex hs (Suc index) rest ds1 w2)) = trace w2 @ evs"
      "table_writes evs = []" by blast
  show ?case
    unfolding step evs(1) evs0(1)
    by (rule exI[of _ "evs0 @ evs"]) (simp add: evs0(2) evs(2))
qed

lemma process_backtest_results_tables:
  "\<exists>evs. trace (snd (process_backtest_results rd ex hs jsonfiles w)) = trace w @ evs \<and>
         table_writes evs = []"
  unfolding process_backtest_results_def by (rule backtest_results_loop_tables)

lemma discord_loop_tables:
  "\<exists>evs. trace (snd (discord_loop get jsonfiles d w)) = trace w @ evs \<and> table_writes evs = []"
proof (induction jsonfiles arbitrary: d w)
  case Nil
  show ?case by simp
next
  case (Cons f rest)
  show ?case
  proof (cases "get (files w) f")
    case (Inl e)
    then show ?thesis by (simp add: Let_def)
  next
    case (Inr found)
    have step: "discord_loop get (f # rest) d w =
                discord_loop get rest (dict_update d found) (emit (Print_Processing f) w)"
      using Inr by (simp add: Let_def)
    from Cons.IH[of "dict_update d found" "emit (Print_Processing f) w"] obtain evs where
      evs: "trace (snd (discord_loop get rest (dict_update d found) (emit (Print_Processing f) w))) =
              trace (emit (Print_Processing f) w) @ evs" "table_writes evs = []" by blast
    show ?thesis
      unfolding step evs(1)
      by (rule exI[of _ "[Print_Processing f] @ evs"]) (simp add: evs(2))
  qed
qed

lemma process_discord_exports_tables:
  "\<exists>evs. trace (snd (process_discord_exports ls isf get dirpath w)) = trace w @ evs \<and>
         table_writes evs = []"
proof (cases "ls (files w) dirpath")
  case (Inl e)
  then show ?thesis by (simp add: process_discord_exports_def)
next
  case (Inr names)
  then show ?thesis
    by (simp add: process_discord_exports_def discord_loop_tables)
qed

lemma trace_to_csv [simp]: "trace (to_csv c p w) = trace w @ [File_Write p c]"
  by (simp add: to_csv_def)

lemma files_to_csv [simp]: "files (to_csv c p w) = (files w)(p \<mapsto> c)"
  by (simp add: to_csv_def)

text \<open>
  C9. A run of \<open>main_data_collection_workflow\<close> that completes writes four tables, in
  this order: the symphonies frame to the SYMPHONIES path, the frame of the symphony
  responses to the path \<open>get_csv_name 'OOS'\<close>, the backtest statistics to the BACKTEST
  path, and the OOS statistics to the same path \<open>get_csv_name 'OOS'\<close> again. When the run
  has completed, the file at that path holds the OOS statistics table: the frame of the
  responses written there before has been replaced.
\<close>

theorem main_data_collection_workflow_overwrites_oos:
  assumes "main_data_collection_workflow h w = (Inr (df_backtest_stats, df_oos_stats), w')"
  shows "(\<exists>df response_list.
            table_writes (effects_since w w') =
              [(get_csv_name h ''SYMPHONIES'', Symphony_Table df),
               (get_csv_name h ''OOS'', Data_Table (response_to_dataframe h response_list)),
               (get_csv_name h ''BACKTEST'', Data_Table df_backtest_stats),
               (get_csv_name h ''OOS'', Data_Table df_oos_stats)]) \<and>
         files w' (get_csv_name h ''OOS'') = Some (Data_Table df_oos_stats)"
proof -
  obtain start_date end_date where dates: "get_start_end_date h = (start_date, end_date)"
    by (cases "get_start_end_date h")
  let ?dirpath = "''~/source/discord/archive/20241229''"
  obtain r1 w1 where p1: "process_discord_exports (listdir h) (isfile h) (get_symphonies h)
                            ?dirpath w = (r1, w1)"
    by (cases "process_discord_exports (listdir h) (isfile h) (get_symphonies h) ?dirpath w")
  from assms dates p1 obtain symphonies_dict where r1: "r1 = Inr symphonies_dict"
    by (cases r1) (auto simp: main_data_collection_workflow_def Let_def)
  let ?df = "symphonies_to_df h symphonies_dict"
  let ?w2 = "to_csv (Symphony_Table ?df) (get_csv_name h ''SYMPHONIES'') w1"
  obtain response_list failure_list w3 where
    p3: "batch_fetch_symphonies (fetch_symphony h) (sids_of ?df) ?w2 =
           ((response_list, failure_list), w3)"
    by (metis surj_pair)
  let ?df_response = "response_to_dataframe h response_list"
  let ?w4 = "to_csv (Data_Table ?df_response) (get_csv_name h ''OOS'') w3"
  obtain rlist flist w5 where
    p5: "batch_fetch_backtests (fetch_backtest_raw h) ?df start_date end_date ?w4 =
           ((rlist, flist), w5)"
    by (metis surj_pair)
  let ?jsonfiles = "map (backtest_filename end_date) (sids_of ?df)"
  obtain dict_allocation dict_return dict_stats dict_name w6 where
    p6: "process_backtest_results (read_json h) (get_backtest_and_symphony_name h) (hashable h)
           ?jsonfiles w5 = ((dict_allocation, dict_return, dict_stats, dict_name), w6)"
    by (metis surj_pair)
  let ?w7 = "to_csv (Data_Table df_backtest_stats) (get_csv_name h ''BACKTEST'') w6"
  from assms have w': "w' = to_csv (Data_Table df_oos_stats) (get_csv_name h ''OOS'') ?w7"
    by (auto simp: main_data_collection_workflow_def dates p1 r1 Let_def p3 p5 p6
             split: sum.splits)
  obtain e1 where e1: "trace w1 = trace w @ e1" "table_writes e1 = []"
    using process_discord_exports_tables[of "listdir h" "isfile h" "get_symphonies h" ?dirpath w] p1
    by auto
  obtain e3 where e3: "trace w3 = trace ?w2 @ e3" "table_writes e3 = []"
    using batch_fetch_symphonies_tables[of "fetch_symphony h" "sids_of ?df" ?w2] p3 by auto
  obtain e5 where e5: "trace w5 = trace ?w4 @ e5" "table_writes e5 = []"
    using batch_fetch_backtests_tables[of "fetch_backtest_raw h" ?df start_date end_date ?w4] p5
    by auto
  obtain e6 where e6: "trace w6 = trace w5 @ e6" "table_writes e6 = []"
    using process_backtest_results_tables[of "read_json h" "get_backtest_and_symphony_name h"
            "hashable h" ?jsonfiles w5] p6 by auto
  have "trace w' = trace w @ e1 @ [File_Write (get_csv_name h ''SYMPHONIES'') (Symphony_Table ?df)] @
          e3 @ [File_Write (get_csv_name h ''OOS'') (Data_Table ?df_response)] @ e5 @ e6 @
          [File_Write (get_csv_name h ''BACKTEST'') (Data_Table df_backtest_stats)] @
          [File_Write (get_csv_name h ''OOS'') (Data_Table df_oos_stats)]"
    by (simp add: w' e6(1) e5(1) e3(1) e1(1))
  then have "table_writes (effects_since w w') =
              [(get_csv_name h ''SYMPHONIES'', Symphony_Table ?df),
               (get_csv_name h ''OOS'', Data_Table (response_to_dataframe h response_list)),
               (get_csv_name h ''BACKTEST'', Data_Table df_backtest_stats),
               (get_csv_name h ''OOS'', Data_Table df_oos_stats)]"
    by (simp add: effects_since_def e1(2) e3(2) e5(2) e6(2))
  moreover have "files w' (get_csv_name h ''OOS'') = Some (Data_Table df_oos_stats)"
    by (simp add: w')
  ultimately show ?thesis by blast
qed


theorem main_data_collection_workflow_overwrites_oos_witness:
  "main_data_collection_workflow demo_helpers demo_archive =
     (Inr (''quant-ret-bt-s1'', ''oos-ret-bt-s1''),
      snd (main_data_collection_workflow demo_helpers demo_archive)) \<and>
   files (snd (main_data_collection_workflow demo_helpers demo_archive))
     (get_csv_name demo_helpers ''OOS'') = Some (Data_Table ''oos-ret-bt-s1'')"
proof -
  have run: "main_data_collection_workflow demo_helpers demo_archive =
     (Inr (''quant-ret-bt-s1'', ''oos-ret-bt-s1''),
      snd (main_data_collection_workflow demo_helpers demo_archive))"
    by (simp add: main_data_collection_workflow_def demo_helpers_def demo_archive_def
          process_discord_exports_def demo_listdir_def demo_isfile_def demo_get_symphonies_def
          demo_dirpath_def join_def dict_update_def to_csv_def write_file_def emit_def
          sleep_def sids_of_def batch_fetch_symphonies_def demo_fetch_def
          batch_fetch_backtests_def demo_fetch_backtest_def write_json_def
          backtest_filename_def process_backtest_results_def try_body_def setitem_def
          demo_read_json_def demo_extract_def merge_dicts_def Let_def prod_eq_iff)
  from main_data_collection_workflow_overwrites_oos[OF run]
  have "files (snd (main_data_collection_workflow demo_helpers demo_archive))
          (get_csv_name demo_helpers ''OOS'') = Some (Data_Table ''oos-ret-bt-s1'')"
    by (rule conjunct2)
  with run show ?thesis by (rule conjI)
qed

end
